theory Spec2Isabelle
  imports Main "HOL-Library.Word"
begin

section \<open>GATT client of BlueZ (attrib/client.c): a shallow embedding\<close>

text \<open>
  The C file keeps one \<^verbatim>\<open>struct gatt_service\<close> per peer, holding a list of
  \<^verbatim>\<open>struct primary\<close>, each holding a list of \<^verbatim>\<open>struct characteristic\<close>
  and a list of \<^verbatim>\<open>struct watcher\<close>.  Structs are records, the singly linked
  lists (GSList) are HOL lists, a pointer to a primary or to a characteristic is
  its index in the owning list, and a pointer that may be NULL is an option.
  Fixed-width integers are machine words.
\<close>

type_synonym u8 = "8 word"
type_synonym u16 = "16 word"

subsection \<open>printf and sscanf of hexadecimal fields\<close>

text \<open>
  \<^verbatim>\<open>%04X\<close>, \<^verbatim>\<open>%02X\<close> and \<^verbatim>\<open>%04x\<close> print a number in base 16 with at
  least the given number of digits, padded with zeros on the left.
\<close>

definition hex_char :: "bool \<Rightarrow> nat \<Rightarrow> char" where
  "hex_char upper d =
     char_of (if d < 10 then 48 + d else if upper then 55 + d else 87 + d)"

fun hex_digits :: "bool \<Rightarrow> nat \<Rightarrow> string" where
  "hex_digits upper n =
     (if n < 16 then [hex_char upper n]
      else hex_digits upper (n div 16) @ [hex_char upper (n mod 16)])"

declare hex_digits.simps [simp del]

definition fmt_hex :: "bool \<Rightarrow> nat \<Rightarrow> nat \<Rightarrow> string" where
  "fmt_hex upper width n =
     (let ds = hex_digits upper n
      in replicate (width - length ds) (CHR ''0'') @ ds)"

text \<open>The C library's \<^verbatim>\<open>isspace\<close> in the C locale: the space and the
  characters 9 to 13.\<close>

definition isspace :: "char \<Rightarrow> bool" where
  "isspace c = (of_char c = (32::nat) \<or> (9::nat) \<le> of_char c \<and> of_char c \<le> (13::nat))"

text \<open>The value of a hexadecimal digit, of either case.\<close>

definition hex_val :: "char \<Rightarrow> nat option" where
  "hex_val c =
     (let n = of_char c in
      if 48 \<le> n \<and> n \<le> 57 then Some (n - 48)
      else if 65 \<le> n \<and> n \<le> 70 then Some (n - 55)
      else if 97 \<le> n \<and> n \<le> 102 then Some (n - 87)
      else None)"

definition hex_number :: "string \<Rightarrow> nat" where
  "hex_number ds = foldl (\<lambda>a c. 16 * a + the (hex_val c)) 0 ds"

text \<open>
  One \<^verbatim>\<open>%<width>X\<close> conversion of sscanf reads what \<^verbatim>\<open>strtoul\<close> reads in
  base 16, within the field width: white space is skipped (it does not count
  in the width), then come an optional sign \<^verbatim>\<open>+\<close> or \<^verbatim>\<open>-\<close>, an optional
  prefix \<^verbatim>\<open>0x\<close> or \<^verbatim>\<open>0X\<close> and the hexadecimal digits, the sign and the
  prefix counting in the width.  The conversion fails when there is no digit.
  A number with the sign \<^verbatim>\<open>-\<close> is negated; the caller stores the result in
  an unsigned integer of 16 or 8 bits, which keeps its low bits.

  The C libraries part in one case only: the characters \<^verbatim>\<open>0x\<close> with no
  hexadecimal digit after them within the width.  The GNU library takes both
  characters and converts 0; the BSD libraries take the \<^verbatim>\<open>0\<close>, convert 0
  and leave the \<^verbatim>\<open>x\<close> in the input; musl fails the conversion, which is
  the reading of ISO C.  Which of the three the library does is a parameter.
\<close>

datatype hex_prefix = X_taken | X_pushed_back | X_refused

definition scan_sign :: "string \<Rightarrow> bool \<times> string" where
  "scan_sign s =
     (case s of
        [] \<Rightarrow> (False, [])
      | c # cs \<Rightarrow>
          if c = CHR ''-'' then (True, cs)
          else if c = CHR ''+'' then (False, cs)
          else (False, s))"

definition hex_prefix_at :: "string \<Rightarrow> bool" where
  "hex_prefix_at s =
     (case s of
        [] \<Rightarrow> False
      | c # cs \<Rightarrow>
          (case cs of
             [] \<Rightarrow> False
           | d # _ \<Rightarrow> c = CHR ''0'' \<and> (d = CHR ''x'' \<or> d = CHR ''X'')))"

definition scan_hex :: "hex_prefix \<Rightarrow> nat \<Rightarrow> string \<Rightarrow> (int \<times> string) option" where
  "scan_hex lib width s =
     (let s1 = dropWhile isspace s;
          (neg, s2) = scan_sign s1;
          w = width - (length s1 - length s2);
          val = (\<lambda>ds. if neg then - int (hex_number ds) else int (hex_number ds))
      in if 2 \<le> w \<and> hex_prefix_at s2
         then
           (let s3 = drop 2 s2;
                ds = takeWhile (\<lambda>c. hex_val c \<noteq> None) (take (w - 2) s3)
            in if ds \<noteq> [] then Some (val ds, drop (length ds) s3)
               else (case lib of
                       X_taken \<Rightarrow> Some (0, s3)
                     | X_pushed_back \<Rightarrow> Some (0, drop 1 s2)
                     | X_refused \<Rightarrow> None))
         else
           (let ds = takeWhile (\<lambda>c. hex_val c \<noteq> None) (take w s2)
            in if ds = [] then None else Some (val ds, drop (length ds) s2)))"

text \<open>A literal character of the format must be the next input character.\<close>

definition scan_lit :: "char \<Rightarrow> string \<Rightarrow> string option" where
  "scan_lit c s = (case s of [] \<Rightarrow> None | x # xs \<Rightarrow> if x = c then Some xs else None)"

text \<open>\<^verbatim>\<open>%s\<close>: white space is skipped, then the run of non-space characters is
  read; the conversion fails at the end of the input.\<close>

definition scan_str :: "string \<Rightarrow> (string \<times> string) option" where
  "scan_str s =
     (let s1 = dropWhile isspace s;
          t = takeWhile (\<lambda>c. \<not> isspace c) s1
      in if t = [] then None else Some (t, drop (length t) s1))"

subsection \<open>Data model\<close>

text \<open>
  A D-Bus method call as the client reads it: its sender, the object path
  argument of the watcher methods and the byte array of SetProperty(Value).
\<close>

record dbus_msg =
  msg_sender :: string
  msg_serial :: nat
  msg_path_arg :: "string option"
  msg_value_arg :: "u8 list option"

record format =
  fmt_format :: u8
  fmt_exponent :: u8
  fmt_unit :: u16
  fmt_namespace :: u8
  fmt_desc :: u16

record descriptor =
  desc_name :: "string option"
  desc_desc :: "u8 list option"
  cli_conf_hndl :: u16
  cli_conf :: u16
  desc_format :: "format option"

text \<open>\<^verbatim>\<open>struct characteristic\<close>; \<^verbatim>\<open>end\<close> is \<open>chr_end\<close>, \<^verbatim>\<open>value\<close> is a
  pointer (NULL is \<open>None\<close>) and \<^verbatim>\<open>vlen\<close> its separately stored length.\<close>

record characteristic =
  chr_path :: string
  chr_handle :: u16
  chr_end :: u16
  chr_perm :: u8
  chr_type :: string
  chr_desc :: descriptor
  chr_msg :: "dbus_msg option"
  chr_value :: "u8 list option"
  chr_vlen :: nat

record watcher =
  w_id :: nat
  w_name :: string
  w_path :: string

record att_primary =
  att_start :: u16
  att_end :: u16
  att_uuid :: string

record primary =
  prim_att :: att_primary
  discovery_msg :: "dbus_msg option"
  discovery_timer :: nat
  prim_path :: string
  chars :: "characteristic list"
  watchers :: "watcher list"

text \<open>\<^verbatim>\<open>struct att_char\<close> (gatt.h): one entry of the list that Discover All
  Characteristics hands to \<^verbatim>\<open>char_discovered_cb\<close>; \<open>ac_handle\<close> is the
  handle of the declaration.\<close>

record att_char =
  ac_uuid :: string
  ac_handle :: u16
  ac_properties :: u8
  ac_value_handle :: u16

datatype sec_level = BT_IO_SEC_SDP | BT_IO_SEC_LOW | BT_IO_SEC_MEDIUM | BT_IO_SEC_HIGH

text \<open>
  Modelled from the spec: the transport (GAttrib, gattrib.c is not part of
  the sources) is a shared handle with a reference count; when the count
  reaches zero the channel is closed and the destroy hook, when one was
  installed, clears the owning service's transport slot.
\<close>

record gattrib =
  refs :: nat
  io_sec_level :: sec_level
  destroy_fn :: bool
  events :: "u8 list"

record query_data =
  q_prim :: nat
  q_chr :: nat
  q_handle :: u16
  q_last :: bool
  q_len :: nat
  q_value :: "u8 list"

datatype callback =
    Update_char_value | Gatt_write_char_resp | Descriptor_cb | Char_discovered_cb

text \<open>What the client hands to the transport: a GATT procedure with its
  completion callback and user data, or a bare PDU.\<close>

datatype att_op =
    Read_char u16
  | Write_char u16 "u8 list"
  | Find_info u16 u16
  | Discover_char u16 u16
  | Send_pdu "u8 list"

type_synonym att_send = "att_op \<times> (callback \<times> query_data) option"

text \<open>What the client sends on the D-Bus connection.\<close>

datatype dbus_out =
    Method_return dbus_msg
  | Discovery_reply dbus_msg "string list"
  | Error_failed dbus_msg string
  | Error_invalid_args dbus_msg
  | Error_not_authorized dbus_msg
  | Value_changed string string string "u8 list option" nat

text \<open>
  \<^verbatim>\<open>struct gatt_service\<close>.  The fields after \<open>listen\<close> are not fields of the
  C struct: they record the effects of the client on its collaborators, namely
  the requests handed to the transport, the messages sent on \<^verbatim>\<open>gatt->conn\<close>,
  the object paths registered with the characteristic interface, the
  characteristics file of the storage backend (keyed by the start handle: the
  two addresses are fixed for a service) with the reads made of it, the timers
  of the main loop and the disconnect watches.
\<close>

record gatt_service =
  gatt_path :: string
  primary :: "primary list"
  attrib :: "gattrib option"
  gatt_msg :: "dbus_msg option"
  psm :: int
  listen :: bool
  att_sent :: "att_send list"
  dbus_sent :: "dbus_out list"
  dbus_registered :: "string list"
  storage :: "u16 \<Rightarrow> string option"
  storage_reads :: "u16 list"
  sources :: "(nat \<times> nat) list"
  next_source :: nat
  dbus_watches :: "nat list"
  next_watch :: nat

text \<open>
  What the collaborators answer, which the C code branches on: whether
  \<^verbatim>\<open>bt_io_set\<close> and \<^verbatim>\<open>bt_io_connect\<close> succeed (with the error text of the
  latter), whether \<^verbatim>\<open>g_try_realloc\<close> of a non-zero size finds memory, whether
  the D-Bus constructors return a message, the text of an ATT error code, and
  how the C library's sscanf reads a \<^verbatim>\<open>0x\<close> that no digit follows.
\<close>

record env =
  bt_io_set_ok :: bool
  bt_io_connect_ok :: bool
  connect_error :: string
  realloc_ok :: bool
  dbus_new_ok :: bool
  att_ecode2str :: "u8 \<Rightarrow> string"
  sscanf_hex_prefix :: hex_prefix

text \<open>Modelled from the spec: the opcodes and error codes of att.h.\<close>

definition ATT_OP_HANDLE_NOTIFY :: u8 where "ATT_OP_HANDLE_NOTIFY = 0x1B"
definition ATT_OP_HANDLE_IND :: u8 where "ATT_OP_HANDLE_IND = 0x1D"
definition ATT_OP_HANDLE_CNF :: u8 where "ATT_OP_HANDLE_CNF = 0x1E"

text \<open>\<^verbatim>\<open>MAX_LEN_UUID_STR\<close> of bluetooth/uuid.h; \<^verbatim>\<open>type\<close> has one byte more.\<close>

definition MAX_LEN_UUID_STR :: nat where "MAX_LEN_UUID_STR = 37"

text \<open>Modelled from the spec: multi-byte integers are little-endian.\<close>

definition att_get_u16 :: "u8 list \<Rightarrow> u16" where
  "att_get_u16 bs = word_of_nat (unat (bs ! 0) + 256 * unat (bs ! 1))"

text \<open>Modelled from the spec: the Handle Value Confirmation is the single
  byte 0x1E.\<close>

definition enc_confirmation :: "u8 list" where
  "enc_confirmation = [ATT_OP_HANDLE_CNF]"

definition upd_prim :: "nat \<Rightarrow> (primary \<Rightarrow> primary) \<Rightarrow> gatt_service \<Rightarrow> gatt_service" where
  "upd_prim pi f g = g\<lparr>primary := (primary g)[pi := f (primary g ! pi)]\<rparr>"

definition upd_chr ::
  "nat \<Rightarrow> nat \<Rightarrow> (characteristic \<Rightarrow> characteristic) \<Rightarrow> gatt_service \<Rightarrow> gatt_service" where
  "upd_chr pi ci f g = upd_prim pi (\<lambda>p. p\<lparr>chars := (chars p)[ci := f (chars p ! ci)]\<rparr>) g"

subsection \<open>The transport handle and the collaborators\<close>

text \<open>Modelled from the spec: \<^verbatim>\<open>g_attrib_ref\<close> and \<^verbatim>\<open>g_attrib_unref\<close> of
  gattrib.c on the service's \<^verbatim>\<open>attrib\<close> slot; both do nothing on NULL.  The
  last release destroys the handle; without a destroy hook the slot keeps
  the stale pointer (shown as a handle with no reference).\<close>

definition g_attrib_ref :: "gatt_service \<Rightarrow> gatt_service" where
  "g_attrib_ref g =
     (case attrib g of None \<Rightarrow> g
      | Some a \<Rightarrow> g\<lparr>attrib := Some (a\<lparr>refs := refs a + 1\<rparr>)\<rparr>)"

definition g_attrib_unref :: "gatt_service \<Rightarrow> gatt_service" where
  "g_attrib_unref g =
     (case attrib g of None \<Rightarrow> g
      | Some a \<Rightarrow>
          if 1 < refs a then g\<lparr>attrib := Some (a\<lparr>refs := refs a - 1\<rparr>)\<rparr>
          else if destroy_fn a then g\<lparr>attrib := None\<rparr>
          else g\<lparr>attrib := Some (a\<lparr>refs := 0\<rparr>)\<rparr>)"

definition g_attrib_register :: "u8 \<Rightarrow> gatt_service \<Rightarrow> gatt_service" where
  "g_attrib_register opcode g =
     (case attrib g of None \<Rightarrow> g
      | Some a \<Rightarrow> g\<lparr>attrib := Some (a\<lparr>events := events a @ [opcode]\<rparr>)\<rparr>)"

definition g_attrib_send :: "att_send \<Rightarrow> gatt_service \<Rightarrow> gatt_service" where
  "g_attrib_send rq g = g\<lparr>att_sent := att_sent g @ [rq]\<rparr>"

definition g_dbus_send_message :: "dbus_out \<Rightarrow> gatt_service \<Rightarrow> gatt_service" where
  "g_dbus_send_message m g = g\<lparr>dbus_sent := dbus_sent g @ [m]\<rparr>"


text \<open>The timers of the main loop: \<^verbatim>\<open>g_timeout_add_seconds\<close> returns a fresh
  positive source id, \<^verbatim>\<open>g_source_remove\<close> drops the source.\<close>

definition g_timeout_add_seconds :: "nat \<Rightarrow> gatt_service \<Rightarrow> nat \<times> gatt_service" where
  "g_timeout_add_seconds pi g =
     (let i = Suc (next_source g)
      in (i, g\<lparr>sources := sources g @ [(i, pi)], next_source := i\<rparr>))"

definition g_source_remove :: "nat \<Rightarrow> gatt_service \<Rightarrow> gatt_service" where
  "g_source_remove i g = g\<lparr>sources := filter (\<lambda>s. fst s \<noteq> i) (sources g)\<rparr>"

definition l2cap_connect :: "env \<Rightarrow> bool \<Rightarrow> gatt_service \<Rightarrow> int \<times> gatt_service" where
  "l2cap_connect e lstn g =
     (case attrib g of
        Some a \<Rightarrow> (0, (g_attrib_ref g)\<lparr>listen := lstn\<rparr>)
      | None \<Rightarrow>
          if \<not> bt_io_connect_ok e then (- 1, g)
          else (0, g\<lparr>attrib := Some \<lparr>refs = 1, io_sec_level = BT_IO_SEC_LOW,
                                      destroy_fn = True, events = []\<rparr>,
                       listen := lstn\<rparr>))"

subsection \<open>Lookup by handle\<close>

definition characteristic_handle_cmp :: "characteristic \<Rightarrow> u16 \<Rightarrow> int" where
  "characteristic_handle_cmp chr h = int (unat (chr_handle chr)) - int (unat h)"

text \<open>\<^verbatim>\<open>g_slist_find_custom\<close>: the first node whose comparison is 0, as its
  position in the list.\<close>

fun g_slist_find_custom :: "'a list \<Rightarrow> 'b \<Rightarrow> ('a \<Rightarrow> 'b \<Rightarrow> int) \<Rightarrow> nat option" where
  "g_slist_find_custom [] d cmp = None"
| "g_slist_find_custom (x # xs) d cmp =
     (if cmp x d = 0 then Some 0 else map_option Suc (g_slist_find_custom xs d cmp))"

subsection \<open>Values and watchers\<close>

text \<open>
  \<^verbatim>\<open>characteristic_set_value\<close>.  \<^verbatim>\<open>g_try_realloc(mem, n)\<close> of GLib returns
  NULL when it finds no memory and also when \<open>n = 0\<close> (it then frees \<open>mem\<close>);
  in both cases the C function has already stored NULL in \<^verbatim>\<open>chr->value\<close> and
  returns \<^verbatim>\<open>-ENOMEM\<close> (-12) with \<^verbatim>\<open>vlen\<close> untouched.
\<close>

definition characteristic_set_value ::
  "env \<Rightarrow> characteristic \<Rightarrow> u8 list \<Rightarrow> int \<times> characteristic" where
  "characteristic_set_value e chr v =
     (if v = [] \<or> \<not> realloc_ok e then (- 12, chr\<lparr>chr_value := None\<rparr>)
      else (0, chr\<lparr>chr_value := Some v, chr_vlen := length v\<rparr>))"

definition update_watchers :: "env \<Rightarrow> characteristic \<Rightarrow> gatt_service \<Rightarrow> watcher \<Rightarrow> gatt_service" where
  "update_watchers e chr g w =
     (if \<not> dbus_new_ok e then g
      else g_dbus_send_message
             (Value_changed (w_name w) (w_path w) (chr_path chr) (chr_value chr) (chr_vlen chr)) g)"

text \<open>The loop of \<^verbatim>\<open>events_handler\<close> over the primaries: the first primary
  that has a characteristic with the handle, and that characteristic.\<close>

fun events_handler_find :: "primary list \<Rightarrow> u16 \<Rightarrow> (nat \<times> nat) option" where
  "events_handler_find [] h = None"
| "events_handler_find (p # ps) h =
     (case g_slist_find_custom (chars p) h characteristic_handle_cmp of
        Some ci \<Rightarrow> Some (0, ci)
      | None \<Rightarrow> map_option (\<lambda>r. (Suc (fst r), snd r)) (events_handler_find ps h))"

definition events_handler :: "env \<Rightarrow> u8 list \<Rightarrow> gatt_service \<Rightarrow> gatt_service" where
  "events_handler e pdu g =
     (if length pdu < 3 then g
      else
        let hnd = att_get_u16 (drop 1 pdu) in
        case events_handler_find (primary g) hnd of
          None \<Rightarrow> g
        | Some (pi, ci) \<Rightarrow>
            let g1 = (if pdu ! 0 = ATT_OP_HANDLE_IND
                      then g_attrib_send (Send_pdu enc_confirmation, None) g else g)
            in if pdu ! 0 = ATT_OP_HANDLE_IND \<or> pdu ! 0 = ATT_OP_HANDLE_NOTIFY
               then
                 let chr = snd (characteristic_set_value e (chars (primary g1 ! pi) ! ci) (drop 3 pdu));
                     g2 = upd_chr pi ci (\<lambda>c. chr) g1
                 in foldl (update_watchers e chr) g2 (watchers (primary g2 ! pi))
               else g1)"

definition g_dbus_add_disconnect_watch :: "gatt_service \<Rightarrow> nat \<times> gatt_service" where
  "g_dbus_add_disconnect_watch g =
     (let i = Suc (next_watch g)
      in (i, g\<lparr>dbus_watches := dbus_watches g @ [i], next_watch := i\<rparr>))"

definition g_dbus_remove_watch :: "nat \<Rightarrow> gatt_service \<Rightarrow> gatt_service" where
  "g_dbus_remove_watch i g = g\<lparr>dbus_watches := removeAll i (dbus_watches g)\<rparr>"

text \<open>A method handler returns its reply, or nothing when the reply comes later.\<close>

definition register_watcher ::
  "env \<Rightarrow> nat \<Rightarrow> dbus_msg \<Rightarrow> gatt_service \<Rightarrow> dbus_out option \<times> gatt_service" where
  "register_watcher e pi msg g =
     (case msg_path_arg msg of
        None \<Rightarrow> (Some (Error_invalid_args msg), g)
      | Some path \<Rightarrow>
          let (r, g1) = l2cap_connect e True g in
          if r < 0 then (Some (Error_failed msg (connect_error e)), g1)
          else
            let g2 = g_attrib_register ATT_OP_HANDLE_IND
                       (g_attrib_register ATT_OP_HANDLE_NOTIFY g1);
                (i, g3) = g_dbus_add_disconnect_watch g2;
                w = \<lparr>w_id = i, w_name = msg_sender msg, w_path = path\<rparr>;
                g4 = upd_prim pi (\<lambda>p. p\<lparr>watchers := watchers p @ [w]\<rparr>) g3
            in (Some (Method_return msg), g_attrib_unref g4))"

definition watcher_exit :: "nat \<Rightarrow> watcher \<Rightarrow> gatt_service \<Rightarrow> gatt_service" where
  "watcher_exit pi w g =
     g_attrib_unref (upd_prim pi (\<lambda>p. p\<lparr>watchers := remove1 w (watchers p)\<rparr>) g)"

text \<open>\<^verbatim>\<open>watcher_cmp\<close> compares the names and then the paths with
  \<^verbatim>\<open>g_strcmp0\<close>; its callers only test the result against 0.\<close>

definition watcher_cmp :: "watcher \<Rightarrow> watcher \<Rightarrow> int" where
  "watcher_cmp w m = (if w_name w = w_name m \<and> w_path w = w_path m then 0 else 1)"

definition unregister_watcher ::
  "nat \<Rightarrow> dbus_msg \<Rightarrow> gatt_service \<Rightarrow> dbus_out option \<times> gatt_service" where
  "unregister_watcher pi msg g =
     (case msg_path_arg msg of
        None \<Rightarrow> (Some (Error_invalid_args msg), g)
      | Some path \<Rightarrow>
          let ws = watchers (primary g ! pi);
              m = \<lparr>w_id = 0, w_name = msg_sender msg, w_path = path\<rparr>
          in (case g_slist_find_custom ws m watcher_cmp of
                None \<Rightarrow> (Some (Error_not_authorized msg), g)
              | Some k \<Rightarrow>
                  (let w = ws ! k;
                       g1 = g_dbus_remove_watch (w_id w) g
                   in (Some (Method_return msg),
                       upd_prim pi (\<lambda>p. p\<lparr>watchers := remove1 w (watchers p)\<rparr>) g1))))"

subsection \<open>The cache of characteristics\<close>

text \<open>\<^verbatim>\<open>snprintf(chr_str, 64, "%04X#%02X#%04X#%s ", ...)\<close> keeps at most 63
  characters.\<close>

definition chr_str :: "characteristic \<Rightarrow> string" where
  "chr_str chr =
     take 63 (fmt_hex True 4 (unat (chr_handle chr)) @ ''#'' @
              fmt_hex True 2 (unat (chr_perm chr)) @ ''#'' @
              fmt_hex True 4 (unat (chr_end chr)) @ ''#'' @ chr_type chr @ '' '')"

definition characteristic_list_to_string :: "characteristic list \<Rightarrow> string" where
  "characteristic_list_to_string cs = concat (map chr_str cs)"

text \<open>Modelled from the spec: the storage backend keeps one string per
  (local address, peer address, start handle).\<close>

definition write_device_characteristics :: "u16 \<Rightarrow> string \<Rightarrow> gatt_service \<Rightarrow> gatt_service" where
  "write_device_characteristics start str g = g\<lparr>storage := (storage g)(start \<mapsto> str)\<rparr>"

definition read_device_characteristics :: "u16 \<Rightarrow> gatt_service \<Rightarrow> string option \<times> gatt_service" where
  "read_device_characteristics start g =
     (storage g start, g\<lparr>storage_reads := storage_reads g @ [start]\<rparr>)"

definition store_characteristics :: "nat \<Rightarrow> gatt_service \<Rightarrow> gatt_service" where
  "store_characteristics pi g =
     (let prim = primary g ! pi
      in write_device_characteristics (att_start (prim_att prim))
           (characteristic_list_to_string (chars prim)) g)"

definition register_characteristics :: "nat \<Rightarrow> gatt_service \<Rightarrow> gatt_service" where
  "register_characteristics pi g =
     g\<lparr>dbus_registered := dbus_registered g @ map chr_path (chars (primary g ! pi))\<rparr>"

text \<open>\<^verbatim>\<open>g_strsplit(str, " ", 0)\<close> of GLib: the pieces between the delimiters,
  empty pieces included; the empty string has no piece.\<close>

fun strsplit :: "char \<Rightarrow> string \<Rightarrow> string list" where
  "strsplit d [] = [[]]"
| "strsplit d (c # cs) =
     (if c = d then [] # strsplit d cs
      else (case strsplit d cs of [] \<Rightarrow> [[c]] | t # ts \<Rightarrow> (c # t) # ts))"

definition g_strsplit :: "string \<Rightarrow> char \<Rightarrow> string list" where
  "g_strsplit str d = (if str = [] then [] else strsplit d str)"

text \<open>\<^verbatim>\<open>sscanf(chars[i], "%04hX#%02hhX#%04hX#%s", ...)\<close>: the four converted
  values when all four conversions succeed (the call returns 4), and \<open>None\<close>
  when it returns less.  The numbers are stored through pointers to
  \<^verbatim>\<open>uint16_t\<close> and \<^verbatim>\<open>uint8_t\<close>.  \<^verbatim>\<open>%s\<close> has no field width: the model
  keeps the whole run, while the C code has room for \<^verbatim>\<open>MAX_LEN_UUID_STR\<close>
  characters in \<^verbatim>\<open>type\<close> and writes past the field for a longer run; what
  is proved of a converted piece asks for a run that fits.\<close>

definition sscanf_chr :: "env \<Rightarrow> string \<Rightarrow> (u16 \<times> u8 \<times> u16 \<times> string) option" where
  "sscanf_chr e s =
     Option.bind (scan_hex (sscanf_hex_prefix e) 4 s) (\<lambda>(h, s1).
     Option.bind (scan_lit (CHR ''#'') s1) (\<lambda>s2.
     Option.bind (scan_hex (sscanf_hex_prefix e) 2 s2) (\<lambda>(p, s3).
     Option.bind (scan_lit (CHR ''#'') s3) (\<lambda>s4.
     Option.bind (scan_hex (sscanf_hex_prefix e) 4 s4) (\<lambda>(en, s5).
     Option.bind (scan_lit (CHR ''#'') s5) (\<lambda>s6.
     Option.bind (scan_str s6) (\<lambda>(t, s7).
       Some (word_of_int h, word_of_int p, word_of_int en, t))))))))"

text \<open>\<^verbatim>\<open>g_new0(struct characteristic, 1)\<close>: every field zero.\<close>

definition descriptor0 :: descriptor where
  "descriptor0 = \<lparr>desc_name = None, desc_desc = None, cli_conf_hndl = 0, cli_conf = 0,
                  desc_format = None\<rparr>"

definition characteristic0 :: characteristic where
  "characteristic0 = \<lparr>chr_path = [], chr_handle = 0, chr_end = 0, chr_perm = 0,
                      chr_type = [], chr_desc = descriptor0, chr_msg = None,
                      chr_value = None, chr_vlen = 0\<rparr>"

text \<open>\<^verbatim>\<open>g_strdup_printf("%s/characteristic%04x", prim->path, chr->handle)\<close>\<close>

definition characteristic_path :: "string \<Rightarrow> u16 \<Rightarrow> string" where
  "characteristic_path ppath h = ppath @ ''/characteristic'' @ fmt_hex False 4 (unat h)"

fun string_to_characteristic_loop ::
  "env \<Rightarrow> string \<Rightarrow> string list \<Rightarrow> characteristic list \<Rightarrow> characteristic list" where
  "string_to_characteristic_loop e ppath [] l = l"
| "string_to_characteristic_loop e ppath (c # cs) l =
     (case sscanf_chr e c of
        None \<Rightarrow> string_to_characteristic_loop e ppath cs l
      | Some (h, p, en, t) \<Rightarrow>
          string_to_characteristic_loop e ppath cs
            (l @ [characteristic0\<lparr>chr_handle := h, chr_perm := p, chr_end := en,
                                   chr_type := t,
                                   chr_path := characteristic_path ppath h\<rparr>]))"

definition string_to_characteristic_list ::
  "env \<Rightarrow> primary \<Rightarrow> string option \<Rightarrow> characteristic list" where
  "string_to_characteristic_list e prim str =
     (case str of None \<Rightarrow> []
      | Some s \<Rightarrow> string_to_characteristic_loop e (prim_path prim) (g_strsplit s (CHR '' '')) [])"

definition load_characteristics :: "env \<Rightarrow> nat \<Rightarrow> gatt_service \<Rightarrow> gatt_service" where
  "load_characteristics e pi g =
     (let prim = primary g ! pi in
      if chars prim \<noteq> [] then g
      else
        let (str, g1) = read_device_characteristics (att_start (prim_att prim)) g in
        (case str of
           None \<Rightarrow> g1
         | Some s \<Rightarrow>
             (let chrs_list = string_to_characteristic_list e prim (Some s) in
              if chrs_list = [] then g1
              else register_characteristics pi (upd_prim pi (\<lambda>p. p\<lparr>chars := chrs_list\<rparr>) g1))))"

text \<open>The fields of a characteristic that the cache stores.\<close>

definition cache_tuple :: "characteristic \<Rightarrow> u16 \<times> u8 \<times> u16 \<times> string" where
  "cache_tuple c = (chr_handle c, chr_perm c, chr_end c, chr_type c)"

text \<open>A characteristic whose type is a UUID string as the client holds it:
  not empty, without white space, and within \<^verbatim>\<open>MAX_LEN_UUID_STR\<close>.\<close>

definition wf_chr :: "characteristic \<Rightarrow> bool" where
  "wf_chr c = (chr_type c \<noteq> [] \<and> length (chr_type c) \<le> MAX_LEN_UUID_STR \<and>
               list_all (\<lambda>x. \<not> isspace x) (chr_type c))"

subsection \<open>GATT procedures\<close>

text \<open>Modelled from the spec: the procedures of gatt.c hand a request to the
  transport together with the completion callback and its user data.\<close>

definition gatt_read_char :: "u16 \<Rightarrow> callback \<Rightarrow> query_data \<Rightarrow> gatt_service \<Rightarrow> gatt_service" where
  "gatt_read_char h cb q g = g_attrib_send (Read_char h, Some (cb, q)) g"

definition gatt_write_char ::
  "u16 \<Rightarrow> u8 list \<Rightarrow> callback \<Rightarrow> query_data \<Rightarrow> gatt_service \<Rightarrow> gatt_service" where
  "gatt_write_char h v cb q g = g_attrib_send (Write_char h v, Some (cb, q)) g"

definition gatt_find_info ::
  "u16 \<Rightarrow> u16 \<Rightarrow> callback \<Rightarrow> query_data \<Rightarrow> gatt_service \<Rightarrow> gatt_service" where
  "gatt_find_info st en cb q g = g_attrib_send (Find_info st en, Some (cb, q)) g"

definition gatt_discover_char ::
  "u16 \<Rightarrow> u16 \<Rightarrow> callback \<Rightarrow> query_data \<Rightarrow> gatt_service \<Rightarrow> gatt_service" where
  "gatt_discover_char st en cb q g = g_attrib_send (Discover_char st en, Some (cb, q)) g"

text \<open>\<^verbatim>\<open>g_new0(struct query_data, 1)\<close>\<close>

definition query_data0 :: query_data where
  "query_data0 = \<lparr>q_prim = 0, q_chr = 0, q_handle = 0, q_last = False, q_len = 0, q_value = []\<rparr>"

subsection \<open>Stopping a discovery\<close>

definition stop_discovery :: "nat \<Rightarrow> gatt_service \<Rightarrow> gatt_service" where
  "stop_discovery pi g =
     (let g1 = upd_prim pi (\<lambda>p. p\<lparr>discovery_timer := 0\<rparr>) g in
      case discovery_msg (primary g ! pi) of
        None \<Rightarrow> g1
      | Some m \<Rightarrow>
          g_attrib_unref
            (upd_prim pi (\<lambda>p. p\<lparr>discovery_msg := None\<rparr>)
               (g_dbus_send_message
                  (Error_failed m ''Discover characteristic values timed out'') g1)))"

text \<open>The timer callback returns FALSE, which makes the main loop drop the
  source that fired.\<close>

definition stop_discovery_timeout :: "nat \<Rightarrow> nat \<Rightarrow> gatt_service \<Rightarrow> gatt_service" where
  "stop_discovery_timeout src pi g = g_source_remove src (stop_discovery pi g)"

definition attrib_disconnect :: "gatt_service \<Rightarrow> gatt_service" where
  "attrib_disconnect g =
     g_attrib_unref (foldl (\<lambda>g' pi. stop_discovery pi g') g [0..<length (primary g)])"

subsection \<open>Reading and writing a value\<close>






definition set_value ::
  "env \<Rightarrow> nat \<Rightarrow> nat \<Rightarrow> dbus_msg \<Rightarrow> gatt_service \<Rightarrow> dbus_out option \<times> gatt_service" where
  "set_value e pi ci msg g =
     (case msg_value_arg msg of
        None \<Rightarrow> (Some (Error_invalid_args msg), g)
      | Some v \<Rightarrow>
          (let (r, g1) = l2cap_connect e False g in
           if r < 0 then (Some (Error_failed msg (connect_error e)), g1)
           else
             (let qvalue = query_data0\<lparr>q_prim := pi, q_chr := ci,
                                        q_len := length v mod 65536, q_value := v\<rparr>;
                  g2 = upd_chr pi ci (\<lambda>c. c\<lparr>chr_msg := Some msg\<rparr>) g1
              in (None, gatt_write_char (chr_handle (chars (primary g2 ! pi) ! ci)) v
                          Gatt_write_char_resp qvalue g2))))"

subsection \<open>Discovery of the characteristics of a primary\<close>

definition update_all_chars_step ::
  "nat \<Rightarrow> nat \<Rightarrow> characteristic \<Rightarrow> bool \<Rightarrow> gatt_service \<Rightarrow> gatt_service" where
  "update_all_chars_step pi ci chr lst g =
     (let qdesc = query_data0\<lparr>q_prim := pi, q_chr := ci\<rparr>;
          g1 = gatt_find_info (chr_handle chr + 1) (chr_end chr) Descriptor_cb qdesc
                 (g_attrib_ref g);
          qvalue = query_data0\<lparr>q_prim := pi, q_chr := ci, q_last := lst\<rparr>
      in gatt_read_char (chr_handle chr) Update_char_value qvalue (g_attrib_ref g1))"

fun update_all_chars_loop ::
  "nat \<Rightarrow> nat \<Rightarrow> characteristic list \<Rightarrow> gatt_service \<Rightarrow> gatt_service" where
  "update_all_chars_loop pi ci [] g = g"
| "update_all_chars_loop pi ci (chr # l) g =
     update_all_chars_loop pi (Suc ci) l (update_all_chars_step pi ci chr (l = []) g)"

definition update_all_chars :: "nat \<Rightarrow> gatt_service \<Rightarrow> gatt_service" where
  "update_all_chars pi g =
     (let g1 = update_all_chars_loop pi 0 (chars (primary g ! pi)) g;
          (i, g2) = g_timeout_add_seconds pi g1
      in upd_prim pi (\<lambda>p. p\<lparr>discovery_timer := i\<rparr>) g2)"

text \<open>The characteristic that \<^verbatim>\<open>char_discovered_cb\<close> creates for an entry;
  \<^verbatim>\<open>strncpy\<close> copies at most the size of \<^verbatim>\<open>type\<close>, and \<^verbatim>\<open>end\<close> is still 0.\<close>

definition new_characteristic :: "string \<Rightarrow> att_char \<Rightarrow> characteristic" where
  "new_characteristic ppath current_chr =
     characteristic0\<lparr>chr_perm := ac_properties current_chr,
                      chr_handle := ac_value_handle current_chr,
                      chr_path := characteristic_path ppath (ac_value_handle current_chr),
                      chr_type := take (Suc MAX_LEN_UUID_STR) (ac_uuid current_chr)\<rparr>"

text \<open>The loop of \<^verbatim>\<open>char_discovered_cb\<close>; \<^verbatim>\<open>previous_end\<close> points into the
  characteristic created last and is given by its position in the list.\<close>

fun char_discovered_loop ::
  "string \<Rightarrow> att_char list \<Rightarrow> nat option \<Rightarrow> characteristic list
     \<Rightarrow> nat option \<times> characteristic list" where
  "char_discovered_loop ppath [] previous_end cs = (previous_end, cs)"
| "char_discovered_loop ppath (current_chr # l) previous_end cs =
     (case g_slist_find_custom cs (ac_value_handle current_chr) characteristic_handle_cmp of
        Some lchr \<Rightarrow> char_discovered_loop ppath l previous_end cs
      | None \<Rightarrow>
          (let cs1 = (case previous_end of
                        None \<Rightarrow> cs
                      | Some k \<Rightarrow> cs[k := (cs ! k)\<lparr>chr_end := ac_handle current_chr\<rparr>])
           in char_discovered_loop ppath l (Some (length cs1))
                (cs1 @ [new_characteristic ppath current_chr])))"

definition char_discovered_chars :: "primary \<Rightarrow> att_char list \<Rightarrow> characteristic list" where
  "char_discovered_chars prim characteristics =
     (let (previous_end, cs) =
            char_discovered_loop (prim_path prim) characteristics None (chars prim)
      in case previous_end of
           None \<Rightarrow> cs
         | Some k \<Rightarrow> cs[k := (cs ! k)\<lparr>chr_end := att_end (prim_att prim)\<rparr>])"

definition char_discovered_cb ::
  "env \<Rightarrow> att_char list \<Rightarrow> u8 \<Rightarrow> query_data \<Rightarrow> gatt_service \<Rightarrow> gatt_service" where
  "char_discovered_cb e characteristics status current g =
     (let pi = q_prim current; prim = primary g ! pi in
      if status \<noteq> 0
      then (case discovery_msg prim of
              None \<Rightarrow> g_attrib_unref g
            | Some m \<Rightarrow>
                g_attrib_unref
                  (g_dbus_send_message (Error_failed m (att_ecode2str e status)) g))
      else
        (let g1 = upd_prim pi (\<lambda>p. p\<lparr>chars := char_discovered_chars prim characteristics\<rparr>) g
         in update_all_chars pi (register_characteristics pi (store_characteristics pi g1))))"

definition discover_char ::
  "env \<Rightarrow> nat \<Rightarrow> dbus_msg \<Rightarrow> gatt_service \<Rightarrow> dbus_out option \<times> gatt_service" where
  "discover_char e pi msg g =
     (let prim = primary g ! pi in
      if discovery_msg prim \<noteq> None
      then (Some (Error_failed msg ''Discovery already in progress''), g)
      else
        (let (r, g1) = l2cap_connect e True g in
         if r < 0 then (Some (Error_failed msg (connect_error e)), g1)
         else
           (let qchr = query_data0\<lparr>q_prim := pi\<rparr>;
                g2 = upd_prim pi (\<lambda>p. p\<lparr>discovery_msg := Some msg\<rparr>) g1
            in (None, gatt_discover_char (att_start (prim_att prim)) (att_end (prim_att prim))
                        Char_discovered_cb qchr g2))))"

subsection \<open>The handles a service knows\<close>

definition known_handles :: "gatt_service \<Rightarrow> u16 list" where
  "known_handles g = concat (map (\<lambda>p. map chr_handle (chars p)) (primary g))"

subsection \<open>Reference functions for the statements\<close>

text \<open>
  The entries of a discovered list for which \<open>char_discovered_cb\<close> has to
  create a characteristic, given the value handles already present: an
  entry is skipped when its value handle is present, and a created one makes
  its handle present for the entries after it.
\<close>

fun fresh_entries :: "u16 list \<Rightarrow> att_char list \<Rightarrow> att_char list" where
  "fresh_entries hs [] = []"
| "fresh_entries hs (a # l) =
     (if ac_value_handle a \<in> set hs then fresh_entries hs l
      else a # fresh_entries (hs @ [ac_value_handle a]) l)"

text \<open>The text of a characteristic in the cache string, without the space
  that ends it.\<close>

definition cache_entry :: "characteristic \<Rightarrow> string" where
  "cache_entry chr =
     fmt_hex True 4 (unat (chr_handle chr)) @ ''#'' @
     fmt_hex True 2 (unat (chr_perm chr)) @ ''#'' @
     fmt_hex True 4 (unat (chr_end chr)) @ ''#'' @ chr_type chr"

text \<open>What the parser makes of the entry of a characteristic.\<close>

definition cached_chr :: "string \<Rightarrow> characteristic \<Rightarrow> characteristic" where
  "cached_chr ppath c =
     characteristic0\<lparr>chr_handle := chr_handle c, chr_perm := chr_perm c, chr_end := chr_end c,
                      chr_type := chr_type c,
                      chr_path := characteristic_path ppath (chr_handle c)\<rparr>"

text \<open>
  The characteristics that a run of the loop of \<open>char_discovered_cb\<close>
  appends for the entries it creates: each but the last ends at the handle
  of the declaration of the next created one; the last still has the end 0
  (\<open>open_chars\<close>) until it is given the end of the primary
  (\<open>created_chars\<close>).
\<close>

fun open_chars :: "string \<Rightarrow> att_char list \<Rightarrow> characteristic list" where
  "open_chars ppath [] = []"
| "open_chars ppath [a] = [new_characteristic ppath a]"
| "open_chars ppath (a # b # l) =
     (new_characteristic ppath a)\<lparr>chr_end := ac_handle b\<rparr> # open_chars ppath (b # l)"

fun created_chars :: "string \<Rightarrow> u16 \<Rightarrow> att_char list \<Rightarrow> characteristic list" where
  "created_chars ppath e [] = []"
| "created_chars ppath e [a] = [(new_characteristic ppath a)\<lparr>chr_end := e\<rparr>]"
| "created_chars ppath e (a # b # l) =
     (new_characteristic ppath a)\<lparr>chr_end := ac_handle b\<rparr> # created_chars ppath e (b # l)"

subsection \<open>A concrete service\<close>

text \<open>
  The service of the scenarios: one primary 0x0010..0x0015 of UUID 1800 with
  the characteristic 2A00 at value handle 0x0012, whose value [0x41, 0x42]
  was read before; the transport is open at security level LOW and held
  twice.
\<close>

definition ex_env :: env where
  "ex_env = \<lparr>bt_io_set_ok = True, bt_io_connect_ok = True, connect_error = ''Host is down'',
             realloc_ok = True, dbus_new_ok = True,
             att_ecode2str = (\<lambda>c. ''Attribute error''), sscanf_hex_prefix = X_taken\<rparr>"

definition ex_call :: dbus_msg where
  "ex_call = \<lparr>msg_sender = '':1.42'', msg_serial = 7, msg_path_arg = Some ''/watcher'',
              msg_value_arg = Some [0x55]\<rparr>"

definition ex_chr :: characteristic where
  "ex_chr = characteristic0\<lparr>chr_path := ''/dev/service0010/characteristic0012'',
                             chr_handle := 0x12, chr_end := 0x15, chr_perm := 0x0A,
                             chr_type := ''2a00'', chr_value := Some [0x41, 0x42],
                             chr_vlen := 2\<rparr>"

definition ex_prim :: primary where
  "ex_prim = \<lparr>prim_att = \<lparr>att_start = 0x10, att_end = 0x15, att_uuid = ''1800''\<rparr>,
              discovery_msg = None, discovery_timer = 0, prim_path = ''/dev/service0010'',
              chars = [ex_chr], watchers = []\<rparr>"

definition ex_gatt :: gatt_service where
  "ex_gatt = \<lparr>gatt_path = ''/dev'', primary = [ex_prim],
              attrib = Some \<lparr>refs = 2, io_sec_level = BT_IO_SEC_LOW, destroy_fn = True,
                              events = []\<rparr>,
              gatt_msg = None, psm = - 1, listen = False, att_sent = [], dbus_sent = [],
              dbus_registered = [], storage = (\<lambda>h. None), storage_reads = [], sources = [],
              next_source = 0, dbus_watches = [], next_watch = 0\<rparr>"

text \<open>The same service in the middle of a discovery: the reply is pending and
  the watchdog is armed as source 1.\<close>

definition ex_pending :: gatt_service where
  "ex_pending =
     ex_gatt\<lparr>primary := [ex_prim\<lparr>discovery_msg := Some ex_call, discovery_timer := 1\<rparr>],
             sources := [(1, 0)], next_source := 1\<rparr>"

text \<open>The same service before anything was discovered or cached.\<close>

definition ex_fresh :: gatt_service where
  "ex_fresh = ex_gatt\<lparr>primary := [ex_prim\<lparr>chars := []\<rparr>]\<rparr>"

text \<open>A discovered list: the characteristic already known and a second one,
  declared at 0x0013 with value handle 0x0014.\<close>

definition ex_found :: "att_char list" where
  "ex_found = [\<lparr>ac_uuid = ''2a00'', ac_handle = 0x11, ac_properties = 0x0A,
                 ac_value_handle = 0x12\<rparr>,
               \<lparr>ac_uuid = ''2a01'', ac_handle = 0x13, ac_properties = 0x02,
                 ac_value_handle = 0x14\<rparr>]"

definition ex_query :: query_data where
  "ex_query = query_data0\<lparr>q_prim := 0\<rparr>"




text \<open>The service with one watcher, and the fresh service after
  DiscoverCharacteristics was called: the reply is pending and the Discover
  All Characteristics request is out.\<close>

definition ex_watcher :: watcher where
  "ex_watcher = \<lparr>w_id = 1, w_name = '':1.42'', w_path = ''/watcher''\<rparr>"

definition ex_watched :: gatt_service where
  "ex_watched = ex_gatt\<lparr>primary := [ex_prim\<lparr>watchers := [ex_watcher]\<rparr>],
                        dbus_watches := [1], next_watch := 1\<rparr>"

definition ex_discovering :: gatt_service where
  "ex_discovering = snd (discover_char ex_env 0 ex_call ex_fresh)"

section \<open>Properties\<close>

subsection \<open>Releasing the transport changes nothing else\<close>

lemma primary_g_attrib_unref: "primary (g_attrib_unref g) = primary g"
  by (simp add: g_attrib_unref_def split: option.splits)

lemma dbus_sent_g_attrib_unref: "dbus_sent (g_attrib_unref g) = dbus_sent g"
  by (simp add: g_attrib_unref_def split: option.splits)


subsection \<open>The discovery watchdog\<close>

lemma dbus_sent_stop_discovery_timeout:
  assumes "discovery_msg (primary g ! pi) = Some m"
  shows "dbus_sent (stop_discovery_timeout src pi g) =
           dbus_sent g @ [Error_failed m ''Discover characteristic values timed out'']"
  using assms
  by (simp add: stop_discovery_timeout_def stop_discovery_def g_source_remove_def
      dbus_sent_g_attrib_unref upd_prim_def g_dbus_send_message_def Let_def)

text \<open>
  C9.  When the watchdog fires (\<open>stop_discovery_timeout\<close>) while the reply of
  a discovery is pending, the caller is sent the failure "Discover
  characteristic values timed out", the pending message and the timer of the
  primary are cleared, and nothing else of any primary changes: every list
  of characteristics, with the values and descriptors in it, is as before.
\<close>

theorem stop_discovery_timeout_pending:
  assumes "pi < length (primary g)" and "discovery_msg (primary g ! pi) = Some m"
  shows "dbus_sent (stop_discovery_timeout src pi g) =
           dbus_sent g @ [Error_failed m ''Discover characteristic values timed out''] \<and>
         primary (stop_discovery_timeout src pi g) =
           (primary g)[pi := (primary g ! pi)\<lparr>discovery_timer := 0, discovery_msg := None\<rparr>] \<and>
         discovery_msg (primary (stop_discovery_timeout src pi g) ! pi) = None \<and>
         map chars (primary (stop_discovery_timeout src pi g)) = map chars (primary g)"
proof -
  let ?g' = "stop_discovery_timeout src pi g"
  have p: "primary ?g' =
           (primary g)[pi := (primary g ! pi)\<lparr>discovery_timer := 0, discovery_msg := None\<rparr>]"
    using assms
    by (simp add: stop_discovery_timeout_def stop_discovery_def g_source_remove_def
        primary_g_attrib_unref upd_prim_def g_dbus_send_message_def Let_def)
  have d: "dbus_sent ?g' =
           dbus_sent g @ [Error_failed m ''Discover characteristic values timed out'']"
    using assms(2) by (rule dbus_sent_stop_discovery_timeout)
  have c: "map chars (primary ?g') = map chars (primary g)"
    using assms(1) by (simp add: p map_update list_update_same_conv)
  show ?thesis using assms(1) by (simp add: d c) (simp add: p)
qed

theorem stop_discovery_timeout_pending_witness:
  "0 < length (primary ex_pending) \<and>
   discovery_msg (primary ex_pending ! 0) = Some ex_call \<and>
   dbus_sent (stop_discovery_timeout 1 0 ex_pending) =
     [Error_failed ex_call ''Discover characteristic values timed out''] \<and>
   discovery_msg (primary (stop_discovery_timeout 1 0 ex_pending) ! 0) = None \<and>
   map chars (primary (stop_discovery_timeout 1 0 ex_pending)) = [[ex_chr]]"
proof -
  have h1: "0 < length (primary ex_pending)"
    by (simp add: ex_pending_def)
  have h2: "discovery_msg (primary ex_pending ! 0) = Some ex_call"
    by (simp add: ex_pending_def)
  have s: "dbus_sent ex_pending = []" "map chars (primary ex_pending) = [[ex_chr]]"
    by (simp_all add: ex_pending_def ex_gatt_def ex_prim_def)
  from stop_discovery_timeout_pending [OF h1 h2, of 1]
  have t1: "dbus_sent (stop_discovery_timeout 1 0 ex_pending) =
              dbus_sent ex_pending @ [Error_failed ex_call ''Discover characteristic values timed out'']"
    and t2: "discovery_msg (primary (stop_discovery_timeout 1 0 ex_pending) ! 0) = None"
    and t3: "map chars (primary (stop_discovery_timeout 1 0 ex_pending)) =
              map chars (primary ex_pending)"
    by blast+
  show ?thesis
    using h1 h2 t1 t2 t3 by (simp add: s)
qed

subsection \<open>Loading the cache\<close>

lemma string_to_characteristic_loop_tuples:
  "map cache_tuple (string_to_characteristic_loop e ppath ps l) =
     map cache_tuple l @ List.map_filter (sscanf_chr e) ps"
proof (induction ps arbitrary: l)
  case Nil
  then show ?case by (simp add: map_filter_simps)
next
  case (Cons c ps)
  show ?case
  proof (cases "sscanf_chr e c")
    case None
    then show ?thesis by (simp add: Cons.IH map_filter_simps)
  next
    case (Some r)
    obtain h p en t where r: "r = (h, p, en, t)" by (cases r) auto
    have c: "cache_tuple (characteristic0\<lparr>chr_handle := h, chr_perm := p, chr_end := en,
               chr_type := t, chr_path := characteristic_path ppath h\<rparr>) = (h, p, en, t)"
      by (simp add: cache_tuple_def)
    show ?thesis by (simp add: Some r Cons.IH map_filter_simps c)
  qed
qed

lemma map_filter_Nil_iff: "List.map_filter f ps = [] \<longleftrightarrow> list_all (\<lambda>c. f c = None) ps"
  by (induction ps) (auto simp: map_filter_simps split: option.splits)

lemma string_to_characteristic_list_Nil_iff:
  "string_to_characteristic_list e prim (Some s) = [] \<longleftrightarrow>
     list_all (\<lambda>c. sscanf_chr e c = None) (g_strsplit s (CHR '' ''))"
proof -
  have "string_to_characteristic_list e prim (Some s) = [] \<longleftrightarrow>
        map cache_tuple (string_to_characteristic_list e prim (Some s)) = []"
    by simp
  also have "\<dots> \<longleftrightarrow> List.map_filter (sscanf_chr e) (g_strsplit s (CHR '' '')) = []"
    by (simp only: string_to_characteristic_list_def option.case
        string_to_characteristic_loop_tuples list.map append_Nil)
  finally show ?thesis by (simp only: map_filter_Nil_iff)
qed

lemma load_characteristics_loaded:
  assumes "pi < length (primary g)" and "chars (primary g ! pi) = []"
    and "storage g (att_start (prim_att (primary g ! pi))) = Some s"
    and "string_to_characteristic_list e (primary g ! pi) (Some s) \<noteq> []"
  shows "chars (primary (load_characteristics e pi g) ! pi) =
           string_to_characteristic_list e (primary g ! pi) (Some s)"
  using assms
  by (simp add: load_characteristics_def read_device_characteristics_def Let_def
      register_characteristics_def upd_prim_def)

text \<open>
  C10.  \<open>load_characteristics\<close> leaves the whole state as it is, the log
  of storage reads included, when the primary already has characteristics:
  the cache is read only for an empty list.  When the list is empty and the
  cache has no entry for the primary, or none of the pieces that
  \<^verbatim>\<open>g_strsplit\<close> cuts the stored string into is one on which the four
  conversions of sscanf succeed, the read is the only effect: the primary and
  everything else are unchanged.  That condition is sharp: as soon as one
  piece converts, the primary (one of the service) is given the
  characteristics of the pieces that convert, in their order, provided the
  types read fit the \<^verbatim>\<open>type\<close> field.
\<close>

theorem load_characteristics_frame:
  "(chars (primary g ! pi) \<noteq> [] \<longrightarrow> load_characteristics e pi g = g) \<and>
   (chars (primary g ! pi) = [] \<and> storage g (att_start (prim_att (primary g ! pi))) = None \<longrightarrow>
      load_characteristics e pi g =
        g\<lparr>storage_reads := storage_reads g @ [att_start (prim_att (primary g ! pi))]\<rparr>) \<and>
   (chars (primary g ! pi) = [] \<and>
    storage g (att_start (prim_att (primary g ! pi))) = Some s \<and>
    list_all (\<lambda>c. sscanf_chr e c = None) (g_strsplit s (CHR '' '')) \<longrightarrow>
      load_characteristics e pi g =
        g\<lparr>storage_reads := storage_reads g @ [att_start (prim_att (primary g ! pi))]\<rparr>) \<and>
   (pi < length (primary g) \<and> chars (primary g ! pi) = [] \<and>
    storage g (att_start (prim_att (primary g ! pi))) = Some s \<and>
    \<not> list_all (\<lambda>c. sscanf_chr e c = None) (g_strsplit s (CHR '' '')) \<and>
    list_all (\<lambda>(h, p, en, t). length t \<le> MAX_LEN_UUID_STR)
      (List.map_filter (sscanf_chr e) (g_strsplit s (CHR '' ''))) \<longrightarrow>
      chars (primary (load_characteristics e pi g) ! pi) \<noteq> [] \<and>
      map cache_tuple (chars (primary (load_characteristics e pi g) ! pi)) =
        List.map_filter (sscanf_chr e) (g_strsplit s (CHR '' '')))"
proof (intro conjI impI)
  assume "chars (primary g ! pi) \<noteq> []"
  then show "load_characteristics e pi g = g"
    by (simp add: load_characteristics_def)
next
  assume "chars (primary g ! pi) = [] \<and>
    storage g (att_start (prim_att (primary g ! pi))) = None"
  then show "load_characteristics e pi g =
        g\<lparr>storage_reads := storage_reads g @ [att_start (prim_att (primary g ! pi))]\<rparr>"
    by (simp add: load_characteristics_def read_device_characteristics_def)
next
  assume h: "chars (primary g ! pi) = [] \<and>
    storage g (att_start (prim_att (primary g ! pi))) = Some s \<and>
    list_all (\<lambda>c. sscanf_chr e c = None) (g_strsplit s (CHR '' ''))"
  then have "string_to_characteristic_list e (primary g ! pi) (Some s) = []"
    by (simp only: string_to_characteristic_list_Nil_iff)
  with h show "load_characteristics e pi g =
        g\<lparr>storage_reads := storage_reads g @ [att_start (prim_att (primary g ! pi))]\<rparr>"
    by (simp add: load_characteristics_def read_device_characteristics_def)
next
  assume h: "pi < length (primary g) \<and> chars (primary g ! pi) = [] \<and>
    storage g (att_start (prim_att (primary g ! pi))) = Some s \<and>
    \<not> list_all (\<lambda>c. sscanf_chr e c = None) (g_strsplit s (CHR '' '')) \<and>
    list_all (\<lambda>(h, p, en, t). length t \<le> MAX_LEN_UUID_STR)
      (List.map_filter (sscanf_chr e) (g_strsplit s (CHR '' '')))"
  then have ne: "string_to_characteristic_list e (primary g ! pi) (Some s) \<noteq> []"
    by (simp only: string_to_characteristic_list_Nil_iff not_False_eq_True)
  from h have l: "chars (primary (load_characteristics e pi g) ! pi) =
      string_to_characteristic_list e (primary g ! pi) (Some s)"
    using ne by (intro load_characteristics_loaded) simp_all
  show "chars (primary (load_characteristics e pi g) ! pi) \<noteq> []"
    using l ne by simp
  show "map cache_tuple (chars (primary (load_characteristics e pi g) ! pi)) =
        List.map_filter (sscanf_chr e) (g_strsplit s (CHR '' ''))"
    unfolding l
    by (simp only: string_to_characteristic_list_def option.case
        string_to_characteristic_loop_tuples list.map append_Nil)
qed

text \<open>
  The stored strings of the example: in the first no piece converts (the
  second piece has a sign and no digit); in the second the first piece has
  the prefix \<^verbatim>\<open>0x\<close>, the second no digit at all, and the third a negative
  handle, which is stored modulo \<open>2 ^ 16\<close>, and a signed end handle.
\<close>

lemma sscanf_chr_examples:
  "sscanf_chr ex_env ''junk'' = None"
  "sscanf_chr ex_env ''+#0A#0015#2a00'' = None"
  "sscanf_chr ex_env ''0x12#0A#0015#2a00'' = Some (0x12, 0x0A, 0x15, ''2a00'')"
  "sscanf_chr ex_env ''-001#02#+17#2a01'' = Some (0xFFFF, 0x02, 0x17, ''2a01'')"
  by (simp_all add: sscanf_chr_def scan_hex_def scan_sign_def hex_prefix_at_def scan_lit_def
      scan_str_def isspace_def hex_val_def hex_number_def ex_env_def Let_def)

text \<open>The one input that the C libraries read differently.\<close>

lemma sscanf_chr_prefix_alone:
  "sscanf_chr (ex_env\<lparr>sscanf_hex_prefix := X_taken\<rparr>) ''0x#0A#0015#2a00'' =
     Some (0, 0x0A, 0x15, ''2a00'')"
  "sscanf_chr (ex_env\<lparr>sscanf_hex_prefix := X_pushed_back\<rparr>) ''0x#0A#0015#2a00'' = None"
  "sscanf_chr (ex_env\<lparr>sscanf_hex_prefix := X_refused\<rparr>) ''0x#0A#0015#2a00'' = None"
  by (simp_all add: sscanf_chr_def scan_hex_def scan_sign_def hex_prefix_at_def scan_lit_def
      scan_str_def isspace_def hex_val_def hex_number_def ex_env_def Let_def)

lemma g_strsplit_examples:
  "g_strsplit ''junk +#0A#0015#2a00'' (CHR '' '') = [''junk'', ''+#0A#0015#2a00'']"
  "g_strsplit ''0x12#0A#0015#2a00 junk -001#02#+17#2a01'' (CHR '' '') =
     [''0x12#0A#0015#2a00'', ''junk'', ''-001#02#+17#2a01'']"
  by (simp_all add: g_strsplit_def)

theorem load_characteristics_frame_witness:
  "chars (primary ex_gatt ! 0) \<noteq> [] \<and> load_characteristics ex_env 0 ex_gatt = ex_gatt \<and>
   chars (primary ex_fresh ! 0) = [] \<and> storage ex_fresh 0x10 = None \<and>
   load_characteristics ex_env 0 ex_fresh = ex_fresh\<lparr>storage_reads := [0x10]\<rparr> \<and>
   list_all (\<lambda>c. sscanf_chr ex_env c = None) (g_strsplit ''junk +#0A#0015#2a00'' (CHR '' '')) \<and>
   load_characteristics ex_env 0 (ex_fresh\<lparr>storage := (\<lambda>h. Some ''junk +#0A#0015#2a00'')\<rparr>) =
     ex_fresh\<lparr>storage := (\<lambda>h. Some ''junk +#0A#0015#2a00''), storage_reads := [0x10]\<rparr> \<and>
   \<not> list_all (\<lambda>c. sscanf_chr ex_env c = None)
       (g_strsplit ''0x12#0A#0015#2a00 junk -001#02#+17#2a01'' (CHR '' '')) \<and>
   list_all (\<lambda>(h, p, en, t). length t \<le> MAX_LEN_UUID_STR)
     (List.map_filter (sscanf_chr ex_env)
       (g_strsplit ''0x12#0A#0015#2a00 junk -001#02#+17#2a01'' (CHR '' ''))) \<and>
   map cache_tuple (chars (primary (load_characteristics ex_env 0
     (ex_fresh\<lparr>storage := (\<lambda>h. Some ''0x12#0A#0015#2a00 junk -001#02#+17#2a01'')\<rparr>)) ! 0)) =
     [(0x12, 0x0A, 0x15, ''2a00''), (0xFFFF, 0x02, 0x17, ''2a01'')]"
proof -
  have a: "chars (primary ex_gatt ! 0) \<noteq> []"
    by (simp add: ex_gatt_def ex_prim_def)
  have b: "chars (primary ex_fresh ! 0) = []" "storage ex_fresh 0x10 = None"
    "att_start (prim_att (primary ex_fresh ! 0)) = 0x10" "storage_reads ex_fresh = []"
    "0 < length (primary ex_fresh)"
    by (simp_all add: ex_fresh_def ex_gatt_def ex_prim_def)
  let ?s = "''junk +#0A#0015#2a00''"
  let ?t = "''0x12#0A#0015#2a00 junk -001#02#+17#2a01''"
  have c: "list_all (\<lambda>c. sscanf_chr ex_env c = None) (g_strsplit ?s (CHR '' ''))"
    by (simp add: g_strsplit_examples sscanf_chr_examples)
  have d: "\<not> list_all (\<lambda>c. sscanf_chr ex_env c = None) (g_strsplit ?t (CHR '' ''))"
    by (simp add: g_strsplit_examples sscanf_chr_examples)
  have m: "List.map_filter (sscanf_chr ex_env) (g_strsplit ?t (CHR '' '')) =
      [(0x12, 0x0A, 0x15, ''2a00''), (0xFFFF, 0x02, 0x17, ''2a01'')]"
    by (simp add: g_strsplit_examples sscanf_chr_examples map_filter_simps)
  have f: "list_all (\<lambda>(h, p, en, t). length t \<le> MAX_LEN_UUID_STR)
      (List.map_filter (sscanf_chr ex_env) (g_strsplit ?t (CHR '' '')))"
    by (simp add: m MAX_LEN_UUID_STR_def)
  let ?g = "ex_fresh\<lparr>storage := (\<lambda>h. Some ?s)\<rparr>"
  let ?h = "ex_fresh\<lparr>storage := (\<lambda>h. Some ?t)\<rparr>"
  have e: "primary ?g = primary ex_fresh" "storage ?g = (\<lambda>h. Some ?s)" "storage_reads ?g = []"
    "primary ?h = primary ex_fresh" "storage ?h = (\<lambda>h. Some ?t)"
    by (simp_all add: b)
  have t1: "load_characteristics ex_env 0 ex_gatt = ex_gatt"
    using a load_characteristics_frame [of ex_gatt 0 ex_env] by blast
  have t2: "load_characteristics ex_env 0 ex_fresh = ex_fresh\<lparr>storage_reads := [0x10]\<rparr>"
    using b load_characteristics_frame [of ex_fresh 0 ex_env] by simp
  have t3: "load_characteristics ex_env 0 ?g = ?g\<lparr>storage_reads := [0x10]\<rparr>"
    using b c e load_characteristics_frame [of ?g 0 ex_env ?s] by simp
  have t4: "map cache_tuple (chars (primary (load_characteristics ex_env 0 ?h) ! 0)) =
      List.map_filter (sscanf_chr ex_env) (g_strsplit ?t (CHR '' ''))"
    using b d e f load_characteristics_frame [of ?h 0 ex_env ?t] by simp
  show ?thesis
    using a b(1,2) c d f t1 t2 t3 t4 by (simp only: m) simp
qed

subsection \<open>Notifications and indications for an unknown handle\<close>

lemma characteristic_handle_cmp_0: "characteristic_handle_cmp c h = 0 \<longleftrightarrow> chr_handle c = h"
  by (simp add: characteristic_handle_cmp_def word_uint_eq_iff)

lemma g_slist_find_custom_None:
  "g_slist_find_custom cs h characteristic_handle_cmp = None \<longleftrightarrow> h \<notin> chr_handle ` set cs"
  by (induction cs) (auto simp: characteristic_handle_cmp_0)

lemma g_slist_find_custom_Some:
  "g_slist_find_custom cs h characteristic_handle_cmp = Some k \<Longrightarrow> h \<in> chr_handle ` set cs"
  using g_slist_find_custom_None [of cs h] by simp

lemma events_handler_find_None:
  "events_handler_find ps h = None \<longleftrightarrow> h \<notin> set (concat (map (\<lambda>p. map chr_handle (chars p)) ps))"
  by (induction ps)
    (auto simp: g_slist_find_custom_None dest: g_slist_find_custom_Some split: option.splits)

lemma ex_known_handles: "known_handles ex_gatt = [0x12]"
  by (simp add: known_handles_def ex_gatt_def ex_prim_def ex_chr_def characteristic0_def)

lemma ex_unknown_handle: "att_get_u16 [0xFF, 0xFF, 0x00] = 0xFFFF"
  by (simp add: att_get_u16_def)

text \<open>
  C4, as the claim states it, fails: the Indication 1D FF FF 00 names the
  handle 0xFFFF, which no characteristic of the service has, and the client
  sends nothing at all, so no Confirmation either.  The lookup of the handle
  comes before the switch on the opcode, and \<open>events_handler\<close> returns when
  the lookup finds nothing.
\<close>

theorem indication_unknown_handle_not_confirmed:
  "[0x1D, 0xFF, 0xFF, 0x00] ! 0 = ATT_OP_HANDLE_IND \<and>
   events_handler_find (primary ex_gatt) (att_get_u16 (drop 1 [0x1D, 0xFF, 0xFF, 0x00])) = None \<and>
   att_sent (events_handler ex_env [0x1D, 0xFF, 0xFF, 0x00] ex_gatt) = []"
  by (simp add: events_handler_def ex_unknown_handle ATT_OP_HANDLE_IND_def
      ex_gatt_def ex_prim_def ex_chr_def characteristic0_def characteristic_handle_cmp_def)

text \<open>
  C4, amended.  A Notification or Indication of at least 3 bytes whose handle
  is the value handle of no characteristic of the service is dropped: the
  state after \<open>events_handler\<close> is the state before it.  No value changes,
  no watcher is called, no error is sent to anyone, and nothing is handed to
  the transport: an Indication for an unknown handle is not confirmed.
\<close>

theorem events_handler_unknown_handle:
  assumes "3 \<le> length pdu"
    and "att_get_u16 (drop 1 pdu) \<notin> set (known_handles g)"
  shows "events_handler e pdu g = g"
proof -
  have "events_handler_find (primary g) (att_get_u16 (drop 1 pdu)) = None"
    using assms(2) unfolding known_handles_def events_handler_find_None .
  then show ?thesis
    by (simp add: events_handler_def)
qed

theorem events_handler_unknown_handle_witness:
  "3 \<le> length [0x1D, 0xFF, 0xFF, 0x00 :: u8] \<and>
   att_get_u16 (drop 1 [0x1D, 0xFF, 0xFF, 0x00]) \<notin> set (known_handles ex_gatt) \<and>
   events_handler ex_env [0x1D, 0xFF, 0xFF, 0x00] ex_gatt = ex_gatt"
proof -
  have h1: "3 \<le> length [0x1D, 0xFF, 0xFF, 0x00 :: u8]" by simp
  have h2: "att_get_u16 (drop 1 [0x1D, 0xFF, 0xFF, 0x00]) \<notin> set (known_handles ex_gatt)"
    by (simp add: ex_known_handles ex_unknown_handle)
  show ?thesis
    using h1 h2 events_handler_unknown_handle [OF h1 h2, of ex_env] by blast
qed

subsection \<open>Discovery creates no duplicate\<close>

lemma fresh_entries_disjoint:
  "ac_value_handle ` set (fresh_entries hs l) \<inter> set hs = {}"
proof (induction l arbitrary: hs)
  case Nil
  then show ?case by simp
next
  case (Cons a l)
  show ?case
    using Cons [of hs] Cons [of "hs @ [ac_value_handle a]"] by auto
qed

lemma fresh_entries_distinct: "distinct (map ac_value_handle (fresh_entries hs l))"
proof (induction l arbitrary: hs)
  case Nil
  then show ?case by simp
next
  case (Cons a l)
  have "ac_value_handle a \<notin> ac_value_handle ` set (fresh_entries (hs @ [ac_value_handle a]) l)"
    using fresh_entries_disjoint [of "hs @ [ac_value_handle a]" l] by auto
  with Cons show ?case by simp
qed

lemma fresh_entries_set:
  "set hs \<union> ac_value_handle ` set (fresh_entries hs l) = set hs \<union> ac_value_handle ` set l"
proof (induction l arbitrary: hs)
  case Nil
  then show ?case by simp
next
  case (Cons a l)
  show ?case
    using Cons [of hs] Cons [of "hs @ [ac_value_handle a]"] by auto
qed

lemma fresh_entries_Nil: "ac_value_handle ` set l \<subseteq> set hs \<Longrightarrow> fresh_entries hs l = []"
  by (induction l arbitrary: hs) auto

lemma handles_patch_end:
  "map chr_handle (cs[k := (cs ! k)\<lparr>chr_end := x\<rparr>]) = map chr_handle cs"
  by (cases "k < length cs") (simp_all add: map_update list_update_same_conv list_update_beyond)

lemma chr_handle_new_characteristic:
  "chr_handle (new_characteristic ppath a) = ac_value_handle a"
  by (simp add: new_characteristic_def)

lemma char_discovered_loop_handles:
  "map chr_handle (snd (char_discovered_loop ppath l prev cs)) =
     map chr_handle cs @ map ac_value_handle (fresh_entries (map chr_handle cs) l)"
proof (induction l arbitrary: prev cs)
  case Nil
  then show ?case by simp
next
  case (Cons a l)
  show ?case
  proof (cases "g_slist_find_custom cs (ac_value_handle a) characteristic_handle_cmp")
    case None
    then have "ac_value_handle a \<notin> chr_handle ` set cs"
      by (simp add: g_slist_find_custom_None)
    with None show ?thesis
      by (simp add: Cons.IH Let_def handles_patch_end chr_handle_new_characteristic
          split: option.splits)
  next
    case (Some k)
    then have "ac_value_handle a \<in> chr_handle ` set cs"
      by (rule g_slist_find_custom_Some)
    with Some show ?thesis
      by (simp add: Cons.IH)
  qed
qed

lemma char_discovered_loop_take:
  assumes "case prev of None \<Rightarrow> True | Some k \<Rightarrow> n \<le> k" and "n \<le> length cs"
  shows "take n (snd (char_discovered_loop ppath l prev cs)) = take n cs \<and>
         (case fst (char_discovered_loop ppath l prev cs) of None \<Rightarrow> True | Some k \<Rightarrow> n \<le> k)"
  using assms
proof (induction l arbitrary: prev cs)
  case Nil
  then show ?case by simp
next
  case (Cons a l)
  show ?case
  proof (cases "g_slist_find_custom cs (ac_value_handle a) characteristic_handle_cmp")
    case None
    define cs1 where "cs1 = (case prev of None \<Rightarrow> cs
       | Some k \<Rightarrow> cs[k := (cs ! k)\<lparr>chr_end := ac_handle a\<rparr>])"
    have l1: "length cs1 = length cs"
      by (simp add: cs1_def split: option.splits)
    have t1: "take n cs1 = take n cs"
      using Cons.prems(1) by (simp add: cs1_def split: option.splits)
    have "take n (snd (char_discovered_loop ppath l (Some (length cs1))
                   (cs1 @ [new_characteristic ppath a]))) =
          take n (cs1 @ [new_characteristic ppath a]) \<and>
          (case fst (char_discovered_loop ppath l (Some (length cs1))
                   (cs1 @ [new_characteristic ppath a])) of None \<Rightarrow> True | Some k \<Rightarrow> n \<le> k)"
      using Cons.prems(2) l1 by (intro Cons.IH) simp_all
    then show ?thesis
      using None Cons.prems(2) l1 t1 by (simp add: Let_def cs1_def)
  next
    case (Some k)
    then show ?thesis
      using Cons.IH [OF Cons.prems] by simp
  qed
qed


lemma char_discovered_chars_handles:
  "map chr_handle (char_discovered_chars prim l) =
     map chr_handle (chars prim) @
     map ac_value_handle (fresh_entries (map chr_handle (chars prim)) l)"
proof -
  obtain pe cs where r: "char_discovered_loop (prim_path prim) l None (chars prim) = (pe, cs)"
    by (cases "char_discovered_loop (prim_path prim) l None (chars prim)")
  have "map chr_handle cs =
          map chr_handle (chars prim) @
          map ac_value_handle (fresh_entries (map chr_handle (chars prim)) l)"
    using char_discovered_loop_handles [of "prim_path prim" l None "chars prim"] r by simp
  then show ?thesis
    by (simp add: char_discovered_chars_def r handles_patch_end split: option.splits)
qed

lemma char_discovered_chars_take:
  "take (length (chars prim)) (char_discovered_chars prim l) = chars prim"
proof -
  obtain pe cs where r: "char_discovered_loop (prim_path prim) l None (chars prim) = (pe, cs)"
    by (cases "char_discovered_loop (prim_path prim) l None (chars prim)")
  have "take (length (chars prim)) cs = take (length (chars prim)) (chars prim) \<and>
        (case pe of None \<Rightarrow> True | Some k \<Rightarrow> length (chars prim) \<le> k)"
    using char_discovered_loop_take [where prev = None and n = "length (chars prim)"
        and cs = "chars prim" and ppath = "prim_path prim" and l = l] r
    by simp
  then show ?thesis
    by (simp add: char_discovered_chars_def r split: option.splits)
qed

lemma char_discovered_chars_length:
  "length (char_discovered_chars prim l) =
     length (chars prim) + length (fresh_entries (map chr_handle (chars prim)) l)"
  using arg_cong [OF char_discovered_chars_handles [of prim l], of length] by simp

lemma char_discovered_chars_created:
  "map chr_handle (drop (length (chars prim)) (char_discovered_chars prim l)) =
     map ac_value_handle (fresh_entries (map chr_handle (chars prim)) l)"
  using arg_cong [OF char_discovered_chars_handles [of prim l], of "drop (length (chars prim))"]
  by (simp add: drop_map)

lemma primary_g_attrib_ref: "primary (g_attrib_ref g) = primary g"
  by (simp add: g_attrib_ref_def split: option.splits)

lemma primary_update_all_chars_step: "primary (update_all_chars_step pi ci chr lst g) = primary g"
  by (simp add: update_all_chars_step_def Let_def gatt_read_char_def gatt_find_info_def
      g_attrib_send_def primary_g_attrib_ref)

lemma primary_update_all_chars_loop: "primary (update_all_chars_loop pi ci l g) = primary g"
  by (induction l arbitrary: ci g) (simp_all add: primary_update_all_chars_step)

lemma chars_update_all_chars: "chars (primary (update_all_chars pi g) ! k) = chars (primary g ! k)"
proof (cases "pi < length (primary g)")
  case True
  then show ?thesis
    by (cases "k = pi")
      (simp_all add: update_all_chars_def Let_def g_timeout_add_seconds_def upd_prim_def
        primary_update_all_chars_loop)
next
  case False
  then show ?thesis
    by (simp add: update_all_chars_def Let_def g_timeout_add_seconds_def upd_prim_def
        primary_update_all_chars_loop list_update_beyond)
qed

lemma chars_char_discovered_cb:
  assumes "q_prim current < length (primary g)"
  shows "chars (primary (char_discovered_cb e l 0 current g) ! q_prim current) =
           char_discovered_chars (primary g ! q_prim current) l"
  using assms
  by (simp add: char_discovered_cb_def Let_def chars_update_all_chars register_characteristics_def
      store_characteristics_def write_device_characteristics_def upd_prim_def)

text \<open>
  C8.  Let \<open>old\<close> be the characteristics of a primary before a successful
  Discover All Characteristics completes (\<open>char_discovered_cb\<close> with status
  0) and \<open>new\<close> the characteristics after it.  Then \<open>new\<close> begins with
  \<open>old\<close>, unchanged; every characteristic after that prefix was created by
  this run and has a value handle that no characteristic of \<open>old\<close> has; the
  created ones have pairwise different value handles; if \<open>old\<close> had no
  duplicate value handle, neither has \<open>new\<close>; when every discovered entry is
  already present, all are skipped and \<open>new = old\<close>; and the value handles
  of \<open>new\<close> are those of \<open>old\<close> and of the discovered entries.
\<close>

theorem rediscovery_no_duplicates:
  assumes "q_prim current < length (primary g)"
    and "old = chars (primary g ! q_prim current)"
    and "new = chars (primary (char_discovered_cb e l 0 current g) ! q_prim current)"
  shows "take (length old) new = old \<and>
         (\<forall>c \<in> set (drop (length old) new). chr_handle c \<notin> chr_handle ` set old) \<and>
         distinct (map chr_handle (drop (length old) new)) \<and>
         (distinct (map chr_handle old) \<longrightarrow> distinct (map chr_handle new)) \<and>
         (ac_value_handle ` set l \<subseteq> chr_handle ` set old \<longrightarrow> new = old) \<and>
         chr_handle ` set new = chr_handle ` set old \<union> ac_value_handle ` set l"
proof -
  let ?prim = "primary g ! q_prim current"
  let ?f = "fresh_entries (map chr_handle old) l"
  have new: "new = char_discovered_chars ?prim l"
    using assms(1,3) by (simp add: chars_char_discovered_cb)
  have hs: "map chr_handle new = map chr_handle old @ map ac_value_handle ?f"
    by (simp add: new assms(2) char_discovered_chars_handles)
  have cr: "map chr_handle (drop (length old) new) = map ac_value_handle ?f"
    by (simp add: new assms(2) char_discovered_chars_created)
  have tk: "take (length old) new = old"
    by (simp add: new assms(2) char_discovered_chars_take)
  have dj: "ac_value_handle ` set ?f \<inter> chr_handle ` set old = {}"
    using fresh_entries_disjoint [of "map chr_handle old" l] by simp
  have c2: "\<forall>c \<in> set (drop (length old) new). chr_handle c \<notin> chr_handle ` set old"
  proof
    fix c assume "c \<in> set (drop (length old) new)"
    then have "chr_handle c \<in> set (map chr_handle (drop (length old) new))" by simp
    then have "chr_handle c \<in> ac_value_handle ` set ?f" by (simp add: cr)
    with dj show "chr_handle c \<notin> chr_handle ` set old" by blast
  qed
  have c3: "distinct (map chr_handle (drop (length old) new))"
    by (simp add: cr fresh_entries_distinct)
  have c4: "distinct (map chr_handle old) \<longrightarrow> distinct (map chr_handle new)"
    using dj by (auto simp: hs fresh_entries_distinct)
  have c5: "ac_value_handle ` set l \<subseteq> chr_handle ` set old \<longrightarrow> new = old"
  proof
    assume "ac_value_handle ` set l \<subseteq> chr_handle ` set old"
    then have "?f = []" by (intro fresh_entries_Nil) simp
    then have "length new = length old"
      using arg_cong [OF hs, of length] by simp
    with tk show "new = old" by simp
  qed
  have c6: "chr_handle ` set new = chr_handle ` set old \<union> ac_value_handle ` set l"
    using arg_cong [OF hs, of set] fresh_entries_set [of "map chr_handle old" l] by simp
  show ?thesis using tk c2 c3 c4 c5 c6 by blast
qed

lemma ex_gatt_chars: "chars (primary ex_gatt ! 0) = [ex_chr]" "q_prim ex_query = 0"
  "length (primary ex_gatt) = 1"
  by (simp_all add: ex_gatt_def ex_prim_def ex_query_def query_data0_def)

theorem rediscovery_no_duplicates_witness:
  "q_prim ex_query < length (primary ex_gatt) \<and>
   take (length [ex_chr]) (chars (primary (char_discovered_cb ex_env ex_found 0 ex_query ex_gatt) ! 0))
     = [ex_chr] \<and>
   distinct (map chr_handle [ex_chr]) \<and>
   distinct (map chr_handle
     (chars (primary (char_discovered_cb ex_env ex_found 0 ex_query ex_gatt) ! 0))) \<and>
   ac_value_handle ` set [hd ex_found] \<subseteq> chr_handle ` set [ex_chr] \<and>
   chars (primary (char_discovered_cb ex_env [hd ex_found] 0 ex_query ex_gatt) ! 0) = [ex_chr]"
proof -
  have h: "q_prim ex_query < length (primary ex_gatt)"
    by (simp add: ex_gatt_chars)
  have d: "distinct (map chr_handle [ex_chr])"
    by simp
  have sub: "ac_value_handle ` set [hd ex_found] \<subseteq> chr_handle ` set [ex_chr]"
    by (simp add: ex_found_def ex_chr_def characteristic0_def)
  note t1 = rediscovery_no_duplicates [OF h refl refl, of ex_env ex_found]
  note t2 = rediscovery_no_duplicates [OF h refl refl, of ex_env "[hd ex_found]"]
  from t1 d have a: "take (length [ex_chr])
      (chars (primary (char_discovered_cb ex_env ex_found 0 ex_query ex_gatt) ! 0)) = [ex_chr]"
    and b: "distinct (map chr_handle
      (chars (primary (char_discovered_cb ex_env ex_found 0 ex_query ex_gatt) ! 0)))"
    by (simp_all add: ex_gatt_chars)
  from t2 sub have c:
    "chars (primary (char_discovered_cb ex_env [hd ex_found] 0 ex_query ex_gatt) ! 0) = [ex_chr]"
    by (simp add: ex_gatt_chars)
  show ?thesis
    using h d sub a b c by blast
qed

subsection \<open>The cache string read back\<close>

lemma hex_val_hex_char: "d < 16 \<Longrightarrow> hex_val (hex_char up d) = Some d"
  by (simp add: hex_val_def hex_char_def Let_def)

lemma hex_val_zero: "hex_val (CHR ''0'') = Some 0"
  by (simp add: hex_val_def)

lemma hex_val_not_space: "hex_val c \<noteq> None \<Longrightarrow> \<not> isspace c"
  by (auto simp: hex_val_def isspace_def Let_def split: if_splits)

lemma hex_number_snoc: "hex_number (ds @ [c]) = 16 * hex_number ds + the (hex_val c)"
  by (simp add: hex_number_def)

lemma hex_number_hex_digits: "hex_number (hex_digits up n) = n"
proof (induction up n rule: hex_digits.induct)
  case (1 up n)
  show ?case
  proof (cases "n < 16")
    case True
    then show ?thesis by (simp add: hex_digits.simps [of up n] hex_number_def hex_val_hex_char)
  next
    case False
    with 1 have "hex_number (hex_digits up (n div 16)) = n div 16" by simp
    with False show ?thesis
      by (simp add: hex_digits.simps [of up n] hex_number_snoc hex_val_hex_char)
  qed
qed

lemma hex_digits_are_hex: "c \<in> set (hex_digits up n) \<Longrightarrow> hex_val c \<noteq> None"
proof (induction up n rule: hex_digits.induct)
  case (1 up n)
  show ?case
  proof (cases "n < 16")
    case True
    with "1.prems" show ?thesis by (simp add: hex_digits.simps [of up n] hex_val_hex_char)
  next
    case False
    with "1.prems" have "c \<in> set (hex_digits up (n div 16)) \<or> c = hex_char up (n mod 16)"
      by (auto simp: hex_digits.simps [of up n])
    with False "1.IH" show ?thesis
      by (auto simp: hex_val_hex_char)
  qed
qed

lemma length_hex_digits: "n < 16 ^ k \<Longrightarrow> 0 < k \<Longrightarrow> length (hex_digits up n) \<le> k"
proof (induction k arbitrary: n)
  case 0
  then show ?case by simp
next
  case (Suc k)
  show ?case
  proof (cases "n < 16")
    case True
    then show ?thesis by (simp add: hex_digits.simps [of up n])
  next
    case False
    with Suc.prems have k: "0 < k" by (cases k) simp_all
    from Suc.prems have "n div 16 < 16 ^ k"
      by (simp add: less_mult_imp_div_less mult.commute)
    with Suc.IH k have "length (hex_digits up (n div 16)) \<le> k" by simp
    with False show ?thesis
      by (simp add: hex_digits.simps [of up n])
  qed
qed

lemma hex_number_zeros: "hex_number (replicate k (CHR ''0'') @ ds) = hex_number ds"
  by (induction k) (simp_all add: hex_number_def hex_val_zero)

lemma fmt_hex_props:
  assumes "n < 16 ^ w" and "0 < w"
  shows "length (fmt_hex up w n) = w"
    and "\<forall>c \<in> set (fmt_hex up w n). hex_val c \<noteq> None"
    and "hex_number (fmt_hex up w n) = n"
proof -
  have "length (hex_digits up n) \<le> w"
    using assms by (rule length_hex_digits)
  then show "length (fmt_hex up w n) = w"
    by (simp add: fmt_hex_def Let_def)
  show "\<forall>c \<in> set (fmt_hex up w n). hex_val c \<noteq> None"
    by (auto simp: fmt_hex_def Let_def hex_val_zero dest: hex_digits_are_hex)
  show "hex_number (fmt_hex up w n) = n"
    by (simp add: fmt_hex_def Let_def hex_number_zeros hex_number_hex_digits)
qed

lemma dropWhile_isspace_hex:
  "ds \<noteq> [] \<Longrightarrow> \<forall>c \<in> set ds. hex_val c \<noteq> None \<Longrightarrow> dropWhile isspace (ds @ r) = ds @ r"
  by (cases ds) (simp_all add: hex_val_not_space)

lemma hex_val_not_sign:
  "hex_val c \<noteq> None \<Longrightarrow>
     c \<noteq> CHR ''-'' \<and> c \<noteq> CHR ''+'' \<and> c \<noteq> CHR ''x'' \<and> c \<noteq> CHR ''X''"
  by (auto simp: hex_val_def)

lemma scan_sign_hex:
  "ds \<noteq> [] \<Longrightarrow> \<forall>c \<in> set ds. hex_val c \<noteq> None \<Longrightarrow> scan_sign (ds @ r) = (False, ds @ r)"
  by (cases ds) (simp_all add: scan_sign_def hex_val_not_sign)

lemma hex_prefix_at_hex:
  assumes "\<forall>c \<in> set ds. hex_val c \<noteq> None" and "2 \<le> length ds"
  shows "\<not> hex_prefix_at (ds @ r)"
proof -
  from assms(2) obtain c d ds' where ds: "ds = c # d # ds'"
    by (cases ds; cases "tl ds") auto
  with assms(1) have "hex_val d \<noteq> None" by simp
  then have "d \<noteq> CHR ''x'' \<and> d \<noteq> CHR ''X''" by (simp add: hex_val_not_sign)
  then show ?thesis by (simp add: hex_prefix_at_def ds)
qed

lemma scan_hex_plain:
  assumes "dropWhile isspace s = s1" and "scan_sign s1 = (False, s1)"
    and "\<not> (2 \<le> w \<and> hex_prefix_at s1)"
  shows "scan_hex lib w s =
           (let ds = takeWhile (\<lambda>c. hex_val c \<noteq> None) (take w s1)
            in if ds = [] then None else Some (int (hex_number ds), drop (length ds) s1))"
  using assms(3) by (auto simp: scan_hex_def assms(1,2) Let_def)

lemma scan_hex_fmt_hex:
  assumes "n < 16 ^ w" and "0 < w"
  shows "scan_hex lib w (fmt_hex True w n @ CHR ''#'' # r) = Some (int n, CHR ''#'' # r)"
proof -
  let ?ds = "fmt_hex True w n"
  note p = fmt_hex_props [OF assms, of True]
  from p(1) assms(2) have ne: "?ds \<noteq> []" by auto
  have d: "dropWhile isspace (?ds @ CHR ''#'' # r) = ?ds @ CHR ''#'' # r"
    using ne p(2) by (rule dropWhile_isspace_hex)
  have sg: "scan_sign (?ds @ CHR ''#'' # r) = (False, ?ds @ CHR ''#'' # r)"
    using ne p(2) by (rule scan_sign_hex)
  have np: "\<not> (2 \<le> w \<and> hex_prefix_at (?ds @ CHR ''#'' # r))"
    using hex_prefix_at_hex [OF p(2)] p(1) by auto
  have t: "take w (?ds @ CHR ''#'' # r) = ?ds"
    using p(1) by simp
  have tw: "takeWhile (\<lambda>c. hex_val c \<noteq> None) ?ds = ?ds"
    using p(2) by (simp add: takeWhile_eq_all_conv)
  have "scan_hex lib w (?ds @ CHR ''#'' # r) =
        (let ds = takeWhile (\<lambda>c. hex_val c \<noteq> None) (take w (?ds @ CHR ''#'' # r))
         in if ds = [] then None
            else Some (int (hex_number ds), drop (length ds) (?ds @ CHR ''#'' # r)))"
    using d sg np by (rule scan_hex_plain)
  also have "\<dots> = Some (int n, CHR ''#'' # r)"
    unfolding t tw Let_def using ne by (simp add: p(3))
  finally show ?thesis .
qed

lemma scan_str_token:
  assumes "t \<noteq> []" and "list_all (\<lambda>x. \<not> isspace x) t"
  shows "scan_str t = Some (t, [])"
proof -
  obtain x xs where t: "t = x # xs" using assms(1) by (cases t) auto
  with assms(2) have "\<not> isspace x" by simp
  then have d: "dropWhile isspace t = t"
    by (simp add: t)
  have "\<forall>c \<in> set t. \<not> isspace c"
    using assms(2) by (simp only: list_all_iff)
  then have tw: "takeWhile (\<lambda>c. \<not> isspace c) t = t"
    by (simp only: takeWhile_eq_all_conv)
  show ?thesis
    unfolding scan_str_def d Let_def tw using assms(1) by simp
qed


lemma strsplit_not_Nil: "strsplit d s \<noteq> []"
  by (induction s) (auto split: list.splits)

lemma strsplit_token:
  "d \<notin> set t \<Longrightarrow> strsplit d (t @ d # r) = t # strsplit d r"
  by (induction t) auto

lemma unat_u16_bound: "unat (w :: u16) < 16 ^ 4"
  using unsigned_less [of w, where ?'a = nat] by simp

lemma unat_u8_bound: "unat (w :: u8) < 16 ^ 2"
  using unsigned_less [of w, where ?'a = nat] by simp

lemma fmt_hex_u16:
  "length (fmt_hex up 4 (unat (w :: u16))) = 4"
  "CHR '' '' \<notin> set (fmt_hex up 4 (unat (w :: u16)))"
  "scan_hex lib 4 (fmt_hex True 4 (unat (w :: u16)) @ CHR ''#'' # r) =
     Some (int (unat w), CHR ''#'' # r)"
proof -
  have z: "0 < (4::nat)" by simp
  show "length (fmt_hex up 4 (unat w)) = 4"
    by (rule fmt_hex_props(1) [OF unat_u16_bound z])
  show "CHR '' '' \<notin> set (fmt_hex up 4 (unat w))"
    using fmt_hex_props(2) [OF unat_u16_bound z, where up = up and w1 = w] by (auto simp: hex_val_def)
  show "scan_hex lib 4 (fmt_hex True 4 (unat w) @ CHR ''#'' # r) =
          Some (int (unat w), CHR ''#'' # r)"
    by (rule scan_hex_fmt_hex [OF unat_u16_bound z])
qed

lemma fmt_hex_u8:
  "length (fmt_hex up 2 (unat (w :: u8))) = 2"
  "CHR '' '' \<notin> set (fmt_hex up 2 (unat (w :: u8)))"
  "scan_hex lib 2 (fmt_hex True 2 (unat (w :: u8)) @ CHR ''#'' # r) =
     Some (int (unat w), CHR ''#'' # r)"
proof -
  have z: "0 < (2::nat)" by simp
  show "length (fmt_hex up 2 (unat w)) = 2"
    by (rule fmt_hex_props(1) [OF unat_u8_bound z])
  show "CHR '' '' \<notin> set (fmt_hex up 2 (unat w))"
    using fmt_hex_props(2) [OF unat_u8_bound z, where up = up and w1 = w] by (auto simp: hex_val_def)
  show "scan_hex lib 2 (fmt_hex True 2 (unat w) @ CHR ''#'' # r) =
          Some (int (unat w), CHR ''#'' # r)"
    by (rule scan_hex_fmt_hex [OF unat_u8_bound z])
qed

lemma length_cache_entry: "length (cache_entry chr) = 13 + length (chr_type chr)"
  by (simp add: cache_entry_def fmt_hex_u16(1) fmt_hex_u8(1))

lemma chr_str_cache_entry:
  "wf_chr chr \<Longrightarrow> chr_str chr = cache_entry chr @ '' ''"
proof -
  assume "wf_chr chr"
  then have "length (cache_entry chr @ '' '') \<le> 63"
    by (simp add: length_cache_entry wf_chr_def MAX_LEN_UUID_STR_def)
  then have "take 63 (cache_entry chr @ '' '') = cache_entry chr @ '' ''"
    by (rule take_all)
  then show ?thesis
    by (simp add: chr_str_def cache_entry_def)
qed

lemma isspace_space: "isspace (CHR '' '')"
  by (simp add: isspace_def)

lemma no_space_cache_entry: "wf_chr chr \<Longrightarrow> CHR '' '' \<notin> set (cache_entry chr)"
  using isspace_space
  by (auto simp: cache_entry_def wf_chr_def list_all_iff fmt_hex_u16(2) fmt_hex_u8(2))

lemma scan_lit_hash: "scan_lit (CHR ''#'') (CHR ''#'' # r) = Some r"
  by (simp add: scan_lit_def)

lemma sscanf_chr_cache_entry:
  assumes "wf_chr chr"
  shows "sscanf_chr e (cache_entry chr) = Some (cache_tuple chr)"
proof -
  have t: "scan_str (chr_type chr) = Some (chr_type chr, [])"
    using assms by (intro scan_str_token) (simp_all add: wf_chr_def)
  show ?thesis
    by (simp add: sscanf_chr_def cache_entry_def fmt_hex_u16(3) fmt_hex_u8(3)
        scan_lit_hash t cache_tuple_def)
qed

lemma sscanf_chr_empty: "sscanf_chr e [] = None"
  by (simp add: sscanf_chr_def scan_hex_def scan_sign_def hex_prefix_at_def)

lemma strsplit_cache:
  "list_all wf_chr cs \<Longrightarrow>
   strsplit (CHR '' '') (concat (map chr_str cs)) = map cache_entry cs @ [[]]"
proof (induction cs)
  case Nil
  then show ?case by simp
next
  case (Cons c cs)
  then have w: "wf_chr c" and ih: "strsplit (CHR '' '') (concat (map chr_str cs)) =
      map cache_entry cs @ [[]]"
    by simp_all
  have "strsplit (CHR '' '') (cache_entry c @ CHR '' '' # concat (map chr_str cs)) =
        cache_entry c # strsplit (CHR '' '') (concat (map chr_str cs))"
    using no_space_cache_entry [OF w] by (rule strsplit_token)
  then show ?case
    by (simp add: chr_str_cache_entry [OF w] ih)
qed

lemma cache_tuple_cached_chr: "cache_tuple (cached_chr ppath c) = cache_tuple c"
  by (simp add: cache_tuple_def cached_chr_def)

lemma string_to_characteristic_loop_cache:
  "list_all wf_chr cs \<Longrightarrow>
   string_to_characteristic_loop e ppath (map cache_entry cs @ [[]]) l =
     l @ map (cached_chr ppath) cs"
proof (induction cs arbitrary: l)
  case Nil
  then show ?case by (simp add: sscanf_chr_empty)
next
  case (Cons c cs)
  then show ?case
    by (simp add: sscanf_chr_cache_entry cache_tuple_def cached_chr_def)
qed

text \<open>
  C7.  For every list of characteristics that are well formed (\<open>wf_chr\<close>:
  the type is a non-empty UUID string without white space of at most
  \<^verbatim>\<open>MAX_LEN_UUID_STR\<close> characters; handles and properties are words of 16
  and 8 bits), parsing the string that \<open>characteristic_list_to_string\<close>
  writes gives back, in the same order, characteristics with the same value
  handle, properties, end handle and type.
\<close>

theorem cache_round_trip:
  assumes "list_all wf_chr cs"
  shows "map cache_tuple
           (string_to_characteristic_list e prim (Some (characteristic_list_to_string cs))) =
         map cache_tuple cs"
proof (cases cs)
  case Nil
  then show ?thesis
    by (simp add: string_to_characteristic_list_def characteristic_list_to_string_def
        g_strsplit_def)
next
  case (Cons c cs')
  then have "wf_chr c" using assms by simp
  then have "chr_str c \<noteq> []" by (simp add: chr_str_cache_entry)
  then have ne: "concat (map chr_str cs) \<noteq> []" using Cons by simp
  have "g_strsplit (concat (map chr_str cs)) (CHR '' '') =
        strsplit (CHR '' '') (concat (map chr_str cs))"
    unfolding g_strsplit_def using ne by (simp only: if_False)
  then have "string_to_characteristic_list e prim (Some (characteristic_list_to_string cs)) =
        map (cached_chr (prim_path prim)) cs"
    using assms
    by (simp add: string_to_characteristic_list_def characteristic_list_to_string_def
        strsplit_cache string_to_characteristic_loop_cache)
  then show ?thesis
    by (simp add: cache_tuple_cached_chr)
qed

lemma wf_ex_chr: "wf_chr ex_chr"
  by (simp add: wf_chr_def ex_chr_def characteristic0_def MAX_LEN_UUID_STR_def isspace_def)

lemma replicate_2_3: "replicate 2 x = [x, x]" "replicate 3 x = [x, x, x]"
  by (simp_all add: numeral_2_eq_2 numeral_3_eq_3)

lemma ex_cache_string: "characteristic_list_to_string [ex_chr] = ''0012#0A#0015#2a00 ''"
  by (simp add: characteristic_list_to_string_def chr_str_def ex_chr_def characteristic0_def
      fmt_hex_def hex_digits.simps hex_char_def char_of_def replicate_2_3 bit_0)

theorem cache_round_trip_witness:
  "list_all wf_chr [ex_chr] \<and>
   map cache_tuple (string_to_characteristic_list ex_env ex_prim (Some ''0012#0A#0015#2a00 '')) =
     [(0x12, 0x0A, 0x15, ''2a00'')]"
proof -
  have h: "list_all wf_chr [ex_chr]"
    by (simp add: wf_ex_chr)
  have c: "map cache_tuple [ex_chr] = [(0x12, 0x0A, 0x15, ''2a00'')]"
    by (simp add: cache_tuple_def ex_chr_def characteristic0_def)
  show ?thesis
    using h c cache_round_trip [OF h, of ex_env ex_prim] by (simp add: ex_cache_string)
qed

subsection \<open>Retrying after a security error\<close>













subsection \<open>Where the code and the specification part\<close>

lemma ex_discovering_eval:
  "primary ex_discovering = [ex_prim\<lparr>chars := [], discovery_msg := Some ex_call\<rparr>]"
  "dbus_sent ex_discovering = []"
  "sources ex_discovering = []" "next_source ex_discovering = 0"
  "fst (discover_char ex_env 0 ex_call ex_fresh) = None"
  by (simp_all add: ex_discovering_def discover_char_def ex_fresh_def ex_gatt_def ex_prim_def
      l2cap_connect_def g_attrib_ref_def Let_def upd_prim_def gatt_discover_char_def
      g_attrib_send_def)

text \<open>
  C6.  The code does not do what the claim says.  DiscoverCharacteristics is
  called on a primary without characteristics and the Discover All
  Characteristics step succeeds with an empty list.  \<open>char_discovered_cb\<close>
  sends no reply: the reply is built only by the completion of the read
  tagged \<open>last\<close>, and without a characteristic there is no such read.  The
  call stays pending with the watchdog armed, and when the watchdog fires the
  caller is sent the failure "Discover characteristic values timed out"
  instead of the empty list.
\<close>

theorem empty_discovery_times_out:
  "fst (discover_char ex_env 0 ex_call ex_fresh) = None \<and>
   dbus_sent (char_discovered_cb ex_env [] 0 ex_query ex_discovering) = [] \<and>
   discovery_msg (primary (char_discovered_cb ex_env [] 0 ex_query ex_discovering) ! 0) =
     Some ex_call \<and>
   discovery_timer (primary (char_discovered_cb ex_env [] 0 ex_query ex_discovering) ! 0) = 1 \<and>
   sources (char_discovered_cb ex_env [] 0 ex_query ex_discovering) = [(1, 0)] \<and>
   dbus_sent (stop_discovery_timeout 1 0
               (char_discovered_cb ex_env [] 0 ex_query ex_discovering)) =
     [Error_failed ex_call ''Discover characteristic values timed out'']"
proof -
  let ?g = "char_discovered_cb ex_env [] 0 ex_query ex_discovering"
  have p: "primary ?g = [ex_prim\<lparr>chars := [], discovery_msg := Some ex_call,
                                    discovery_timer := 1\<rparr>]"
    and d: "dbus_sent ?g = []" and s: "sources ?g = [(1, 0)]"
    by (simp_all add: char_discovered_cb_def ex_query_def query_data0_def Let_def
        ex_discovering_eval char_discovered_chars_def update_all_chars_def
        register_characteristics_def store_characteristics_def write_device_characteristics_def
        upd_prim_def g_timeout_add_seconds_def characteristic_list_to_string_def)
  have h2: "discovery_msg (primary ?g ! 0) = Some ex_call" by (simp add: p)
  have "dbus_sent (stop_discovery_timeout 1 0 ?g) =
          dbus_sent ?g @ [Error_failed ex_call ''Discover characteristic values timed out'']"
    using h2 by (rule dbus_sent_stop_discovery_timeout)
  then show ?thesis
    by (simp add: ex_discovering_eval(5) d s) (simp add: p)
qed

lemma length_open_chars: "length (open_chars ppath f) = length f"
  by (induction ppath f rule: open_chars.induct) simp_all

lemma open_chars_sealed:
  "f \<noteq> [] \<Longrightarrow>
   (open_chars ppath f)[length f - 1 := (open_chars ppath f ! (length f - 1))\<lparr>chr_end := e\<rparr>] =
     created_chars ppath e f"
  by (induction ppath f rule: open_chars.induct) simp_all

lemma chr_end_created_chars:
  "i < length f \<Longrightarrow>
   chr_end (created_chars ppath e f ! i) = (if Suc i < length f then ac_handle (f ! Suc i) else e)"
proof (induction ppath e f arbitrary: i rule: created_chars.induct)
  case (1 ppath e)
  then show ?case by simp
next
  case (2 ppath e a)
  then show ?case by simp
next
  case (3 ppath e a b l)
  then show ?case by (cases i) simp_all
qed

lemma char_discovered_loop_result:
  assumes "prev = None \<or> (cs \<noteq> [] \<and> prev = Some (length cs - 1))"
    and "f = fresh_entries (map chr_handle cs) l"
  shows "char_discovered_loop ppath l prev cs =
           (if f = [] then (prev, cs)
            else (Some (length cs + length f - 1),
                  (case prev of None \<Rightarrow> cs
                   | Some k \<Rightarrow> cs[k := (cs ! k)\<lparr>chr_end := ac_handle (hd f)\<rparr>]) @
                  open_chars ppath f))"
  using assms
proof (induction l arbitrary: prev cs f)
  case Nil
  then show ?case by simp
next
  case (Cons a l)
  show ?case
  proof (cases "g_slist_find_custom cs (ac_value_handle a) characteristic_handle_cmp")
    case (Some k)
    then have "ac_value_handle a \<in> chr_handle ` set cs"
      by (rule g_slist_find_custom_Some)
    then have f: "f = fresh_entries (map chr_handle cs) l"
      using Cons.prems(2) by simp
    show ?thesis
      using Some Cons.IH [OF Cons.prems(1) f] by simp
  next
    case None
    then have nin: "ac_value_handle a \<notin> chr_handle ` set cs"
      by (simp add: g_slist_find_custom_None)
    define cs1 where "cs1 = (case prev of None \<Rightarrow> cs
       | Some k \<Rightarrow> cs[k := (cs ! k)\<lparr>chr_end := ac_handle a\<rparr>])"
    define f' where "f' = fresh_entries (map chr_handle cs @ [ac_value_handle a]) l"
    have f: "f = a # f'"
      using Cons.prems(2) nin by (simp add: f'_def)
    have l1: "length cs1 = length cs"
      by (simp add: cs1_def split: option.splits)
    have h1: "map chr_handle (cs1 @ [new_characteristic ppath a]) =
              map chr_handle cs @ [ac_value_handle a]"
      by (simp add: cs1_def handles_patch_end chr_handle_new_characteristic split: option.splits)
    have inv: "Some (length cs1) = None \<or>
               (cs1 @ [new_characteristic ppath a] \<noteq> [] \<and>
                Some (length cs1) = Some (length (cs1 @ [new_characteristic ppath a]) - 1))"
      by simp
    have f'': "f' = fresh_entries (map chr_handle (cs1 @ [new_characteristic ppath a])) l"
      by (simp only: h1 f'_def)
    note ih = Cons.IH [OF inv f'']
    have step: "char_discovered_loop ppath (a # l) prev cs =
                char_discovered_loop ppath l (Some (length cs1)) (cs1 @ [new_characteristic ppath a])"
      using None by (simp add: cs1_def Let_def)
    have cs1': "(case prev of None \<Rightarrow> cs
                 | Some k \<Rightarrow> cs[k := (cs ! k)\<lparr>chr_end := ac_handle (hd f)\<rparr>]) = cs1"
      by (cases prev) (simp_all add: cs1_def f)
    show ?thesis
    proof (cases f')
      case Nil
      with ih have "char_discovered_loop ppath l (Some (length cs1))
                      (cs1 @ [new_characteristic ppath a]) =
                    (Some (length cs1), cs1 @ [new_characteristic ppath a])"
        by simp
      then show ?thesis
        unfolding step cs1' by (simp add: f Nil l1)
    next
      case (Cons b f2)
      with ih have "char_discovered_loop ppath l (Some (length cs1))
                      (cs1 @ [new_characteristic ppath a]) =
                    (Some (length cs1 + 1 + length f' - 1),
                     (cs1 @ [(new_characteristic ppath a)\<lparr>chr_end := ac_handle b\<rparr>]) @
                     open_chars ppath f')"
        by simp
      then show ?thesis
        unfolding step cs1' by (simp add: f Cons l1)
    qed
  qed
qed

lemma char_discovered_chars_result:
  "char_discovered_chars prim l =
     chars prim @ created_chars (prim_path prim) (att_end (prim_att prim))
                    (fresh_entries (map chr_handle (chars prim)) l)"
proof -
  let ?f = "fresh_entries (map chr_handle (chars prim)) l"
  let ?oc = "open_chars (prim_path prim) ?f"
  note r = char_discovered_loop_result [where prev = None and cs = "chars prim" and f = ?f
      and l = l and ppath = "prim_path prim", OF _ refl]
  show ?thesis
  proof (cases ?f)
    case Nil
    then show ?thesis using r by (simp add: char_discovered_chars_def)
  next
    case (Cons b f2)
    then have ne: "?f \<noteq> []" by simp
    have k: "length (chars prim) + length ?f - 1 = length (chars prim) + length f2"
      "length ?f - 1 = length f2"
      by (simp_all add: Cons)
    from r ne have lp: "char_discovered_loop (prim_path prim) l None (chars prim) =
        (Some (length (chars prim) + length f2), chars prim @ ?oc)"
      by (simp add: Cons)
    have "(chars prim @ ?oc)[length (chars prim) + length f2 :=
            ((chars prim @ ?oc) ! (length (chars prim) + length f2))
              \<lparr>chr_end := att_end (prim_att prim)\<rparr>] =
          chars prim @ ?oc[length f2 := (?oc ! length f2)\<lparr>chr_end := att_end (prim_att prim)\<rparr>]"
      by (simp add: list_update_append nth_append)
    also have "?oc[length f2 := (?oc ! length f2)\<lparr>chr_end := att_end (prim_att prim)\<rparr>] =
          created_chars (prim_path prim) (att_end (prim_att prim)) ?f"
      using open_chars_sealed [OF ne, of "prim_path prim" "att_end (prim_att prim)"]
      by (simp only: k)
    finally show ?thesis
      by (simp add: char_discovered_chars_def lp)
  qed
qed

text \<open>
  What \<open>char_discovered_cb\<close> does in general: the characteristics after a
  successful run are the old ones followed by one characteristic for each
  fresh entry, and the created characteristic number \<open>i\<close> ends at the
  declaration handle of the fresh entry after it, or at the end of the
  primary when it is the last.
\<close>

lemma end_handle_of_created:
  assumes "q_prim current < length (primary g)"
    and "old = chars (primary g ! q_prim current)"
    and "new = chars (primary (char_discovered_cb e l 0 current g) ! q_prim current)"
    and "f = fresh_entries (map chr_handle old) l"
    and "i < length f"
  shows "chr_end (new ! (length old + i)) =
           (if Suc i < length f then ac_handle (f ! Suc i)
            else att_end (prim_att (primary g ! q_prim current)))"
proof -
  have "new = old @ created_chars (prim_path (primary g ! q_prim current))
                      (att_end (prim_att (primary g ! q_prim current))) f"
    using assms(1) by (simp add: assms(2,3,4) chars_char_discovered_cb char_discovered_chars_result)
  then show ?thesis
    using assms(5) by (simp add: chr_end_created_chars)
qed

text \<open>
  C1.  The code does not do what the claim says.  For the primary
  0x0010..0x0015 the remote reports two characteristics, declared at 0x0011
  and 0x0013 with value handles 0x0012 and 0x0014.  The end handle of the
  first becomes 0x0013, the handle of the next declaration itself, not that
  handle minus 1; the end handle of the last is the end of the primary.
\<close>

theorem end_handle_is_next_declaration:
  "map ac_handle ex_found = [0x11, 0x13] \<and>
   att_end (prim_att (primary ex_discovering ! 0)) = 0x15 \<and>
   map chr_handle (chars (primary (char_discovered_cb ex_env ex_found 0 ex_query ex_discovering) ! 0))
     = [0x12, 0x14] \<and>
   map chr_end (chars (primary (char_discovered_cb ex_env ex_found 0 ex_query ex_discovering) ! 0))
     = [0x13, 0x15]"
proof -
  have q: "q_prim ex_query < length (primary ex_discovering)" "q_prim ex_query = 0"
    by (simp_all add: ex_query_def query_data0_def ex_discovering_eval)
  have c: "chars (primary (char_discovered_cb ex_env ex_found 0 ex_query ex_discovering) ! 0) =
           char_discovered_chars (primary ex_discovering ! 0) ex_found"
    using chars_char_discovered_cb [OF q(1), of ex_env ex_found] by (simp add: q(2))
  show ?thesis
    by (simp add: c)
      (simp add: ex_found_def ex_discovering_eval ex_prim_def char_discovered_chars_def
        new_characteristic_def characteristic0_def characteristic_handle_cmp_def Let_def)
qed

text \<open>
  C3.  The code does not do what the claim says.  Registering a watcher takes
  a reference of the transport and gives it back before returning, so the
  watcher holds none; when the subscriber goes away \<open>watcher_exit\<close> releases
  a reference all the same.  With the transport held twice before, it is held
  twice while the watcher lives and once after it is gone.
\<close>

theorem watcher_reference_imbalance:
  "map_option refs (attrib ex_gatt) = Some 2 \<and>
   fst (register_watcher ex_env 0 ex_call ex_gatt) = Some (Method_return ex_call) \<and>
   map_option refs (attrib (snd (register_watcher ex_env 0 ex_call ex_gatt))) = Some 2 \<and>
   watchers (primary (snd (register_watcher ex_env 0 ex_call ex_gatt)) ! 0) = [ex_watcher] \<and>
   map_option refs
     (attrib (watcher_exit 0 ex_watcher (snd (register_watcher ex_env 0 ex_call ex_gatt)))) =
     Some 1 \<and>
   watchers (primary (watcher_exit 0 ex_watcher
                        (snd (register_watcher ex_env 0 ex_call ex_gatt))) ! 0) = []"
  by (simp add: register_watcher_def watcher_exit_def l2cap_connect_def g_attrib_ref_def
      g_attrib_unref_def g_attrib_register_def g_dbus_add_disconnect_watch_def upd_prim_def
      ex_gatt_def ex_prim_def ex_call_def ex_watcher_def Let_def)

lemma g_slist_find_custom_index:
  "g_slist_find_custom cs h characteristic_handle_cmp = Some k \<Longrightarrow>
     k < length cs \<and> chr_handle (cs ! k) = h"
proof (induction cs arbitrary: k)
  case Nil
  then show ?case by simp
next
  case (Cons c cs)
  show ?case
  proof (cases "characteristic_handle_cmp c h = 0")
    case True
    with Cons.prems show ?thesis by (simp add: characteristic_handle_cmp_0)
  next
    case False
    with Cons.prems obtain k' where
      "g_slist_find_custom cs h characteristic_handle_cmp = Some k'" "k = Suc k'"
      by auto
    with Cons.IH show ?thesis by simp
  qed
qed

lemma events_handler_find_index:
  "events_handler_find ps h = Some (pi, ci) \<Longrightarrow>
     pi < length ps \<and> ci < length (chars (ps ! pi)) \<and> chr_handle (chars (ps ! pi) ! ci) = h"
proof (induction ps arbitrary: pi)
  case Nil
  then show ?case by simp
next
  case (Cons p ps)
  show ?case
  proof (cases "g_slist_find_custom (chars p) h characteristic_handle_cmp")
    case (Some k)
    with Cons.prems have "pi = 0" "ci = k" by simp_all
    with Some show ?thesis using g_slist_find_custom_index [of "chars p" h k] by simp
  next
    case None
    with Cons.prems obtain pi' where "events_handler_find ps h = Some (pi', ci)" "pi = Suc pi'"
      by auto
    with Cons.IH show ?thesis by simp
  qed
qed

lemma foldl_update_watchers:
  assumes "dbus_new_ok e"
  shows "dbus_sent (foldl (update_watchers e chr) g ws) =
           dbus_sent g @ map (\<lambda>w. Value_changed (w_name w) (w_path w) (chr_path chr)
                                   (chr_value chr) (chr_vlen chr)) ws \<and>
         primary (foldl (update_watchers e chr) g ws) = primary g \<and>
         att_sent (foldl (update_watchers e chr) g ws) = att_sent g"
  using assms
  by (induction ws arbitrary: g) (simp_all add: update_watchers_def g_dbus_send_message_def)

text \<open>
  For an Indication that carries at least one byte of value the code does
  what C5 says, given memory for the value and for the messages: the
  Confirmation is sent, the characteristic found for the handle gets the
  bytes after the handle as its value, and every watcher of its primary is
  sent the path of the characteristic with these bytes.
\<close>

lemma events_handler_indication:
  assumes "4 \<le> length pdu" and "pdu ! 0 = ATT_OP_HANDLE_IND"
    and "events_handler_find (primary g) (att_get_u16 (drop 1 pdu)) = Some (pi, ci)"
    and "realloc_ok e" and "dbus_new_ok e"
    and "chr = (chars (primary g ! pi) ! ci)\<lparr>chr_value := Some (drop 3 pdu),
                                                chr_vlen := length pdu - 3\<rparr>"
  shows "att_sent (events_handler e pdu g) = att_sent g @ [(Send_pdu [ATT_OP_HANDLE_CNF], None)]"
    and "chars (primary (events_handler e pdu g) ! pi) ! ci = chr"
    and "dbus_sent (events_handler e pdu g) =
           dbus_sent g @ map (\<lambda>w. Value_changed (w_name w) (w_path w) (chr_path chr)
                                   (Some (drop 3 pdu)) (length pdu - 3))
                             (watchers (primary g ! pi))"
proof -
  from events_handler_find_index [OF assms(3)]
  have pi: "pi < length (primary g)" and ci: "ci < length (chars (primary g ! pi))"
    by simp_all
  let ?g1 = "g_attrib_send (Send_pdu enc_confirmation, None) g"
  let ?g2 = "upd_chr pi ci (\<lambda>c. chr) ?g1"
  have sv: "snd (characteristic_set_value e (chars (primary ?g1 ! pi) ! ci) (drop 3 pdu)) = chr"
    using assms(1,4) by (simp add: characteristic_set_value_def assms(6) g_attrib_send_def)
  have eh: "events_handler e pdu g = foldl (update_watchers e chr) ?g2 (watchers (primary ?g2 ! pi))"
    using assms(1,2,3) by (simp add: events_handler_def Let_def sv)
  have w: "watchers (primary ?g2 ! pi) = watchers (primary g ! pi)"
    using pi by (simp add: upd_chr_def upd_prim_def g_attrib_send_def)
  have c: "chars (primary ?g2 ! pi) ! ci = chr"
    using pi ci by (simp add: upd_chr_def upd_prim_def g_attrib_send_def)
  have a2: "att_sent ?g2 = att_sent g @ [(Send_pdu [ATT_OP_HANDLE_CNF], None)]"
    and d2: "dbus_sent ?g2 = dbus_sent g"
    by (simp_all add: upd_chr_def upd_prim_def g_attrib_send_def enc_confirmation_def)
  have v: "chr_value chr = Some (drop 3 pdu)" "chr_vlen chr = length pdu - 3"
    by (simp_all add: assms(6))
  note f = foldl_update_watchers [OF assms(5), of chr ?g2 "watchers (primary g ! pi)"]
  show "att_sent (events_handler e pdu g) = att_sent g @ [(Send_pdu [ATT_OP_HANDLE_CNF], None)]"
    unfolding eh w using f a2 by simp
  show "chars (primary (events_handler e pdu g) ! pi) ! ci = chr"
    unfolding eh w using f c by simp
  show "dbus_sent (events_handler e pdu g) =
           dbus_sent g @ map (\<lambda>w. Value_changed (w_name w) (w_path w) (chr_path chr)
                                   (Some (drop 3 pdu)) (length pdu - 3))
                             (watchers (primary g ! pi))"
    unfolding eh w using f d2 v by simp
qed

text \<open>
  C5.  The code does not do what the claim says when the Indication carries an
  empty value (a PDU of exactly 3 bytes).  The Confirmation is sent, but
  \<open>characteristic_set_value\<close> gets NULL from \<^verbatim>\<open>g_try_realloc\<close> for the size 0:
  the stored value is dropped while the stored length stays 2, and the
  watcher is sent the NULL array with that stale length.
\<close>

theorem indication_empty_value:
  "chr_value (chars (primary ex_watched ! 0) ! 0) = Some [0x41, 0x42] \<and>
   att_sent (events_handler ex_env [0x1D, 0x12, 0x00] ex_watched) =
     [(Send_pdu [0x1E], None)] \<and>
   chr_value (chars (primary (events_handler ex_env [0x1D, 0x12, 0x00] ex_watched) ! 0) ! 0) =
     None \<and>
   chr_vlen (chars (primary (events_handler ex_env [0x1D, 0x12, 0x00] ex_watched) ! 0) ! 0) = 2 \<and>
   dbus_sent (events_handler ex_env [0x1D, 0x12, 0x00] ex_watched) =
     [Value_changed '':1.42'' ''/watcher'' ''/dev/service0010/characteristic0012'' None 2]"
  by (simp add: events_handler_def att_get_u16_def ex_watched_def ex_gatt_def ex_prim_def
      ex_chr_def characteristic0_def characteristic_handle_cmp_def ATT_OP_HANDLE_IND_def
      ATT_OP_HANDLE_NOTIFY_def ATT_OP_HANDLE_CNF_def enc_confirmation_def g_attrib_send_def
      characteristic_set_value_def upd_chr_def upd_prim_def update_watchers_def ex_env_def
      g_dbus_send_message_def ex_watcher_def Let_def)

end
